theory Spec2Isabelle
  imports Main "HOL-Library.Word"
begin

unbundle bit_operations_syntax

section \<open>Go runtime: panics, indexing, slicing, counted loops\<close>

text \<open>
  The converter is a Go program (\<^verbatim>\<open>main.go\<close>, which holds the canonical variant followed
  by an older, historical one). It reads the graphics, map and flag sections of a
  cartridge and writes a sprite sheet, a rendered map and two JSON descriptors. This theory
  embeds its decoding and model-building functions as HOL functions, under the names they
  have in the source, and proves properties of them. Reading the cartridge file and the
  command line are outside the embedding: the functions take the section lines and the two
  options \<^verbatim>\<open>useSection3\<close> and \<^verbatim>\<open>useSection4\<close> as arguments.

  A Go index expression \<^verbatim>\<open>s[i]\<close> or slice expression \<^verbatim>\<open>s[lo:hi]\<close> panics when it is out of
  range, so every function that indexes is modelled with the result type \<open>panic + 'a\<close>:
  \<open>Inl\<close> is the panic, \<open>Inr\<close> the normal return. Go's \<^verbatim>\<open>int\<close> is modelled by \<open>int\<close>
  for decoded values (which may be negative) and by \<open>nat\<close> for loop counters and lengths
  (which never are; all values stay far below the 64-bit range). A Go string is a byte
  sequence: \<open>string\<close>, with \<^verbatim>\<open>len\<close> as \<open>length\<close>. A Go struct is a record whose fields
  carry a short prefix, since several structs share field names.
\<close>

datatype panic = IndexOutOfRange | SliceOutOfRange

text \<open>Sequencing: a panic or error of the first step ends the computation.\<close>

definition bind_res :: "'err + 'v \<Rightarrow> ('v \<Rightarrow> 'err + 'w) \<Rightarrow> 'err + 'w" where
  "bind_res step rest = (case step of Inl failure \<Rightarrow> Inl failure | Inr v \<Rightarrow> rest v)"

text \<open>\<^verbatim>\<open>s[i]\<close> for a slice or a string.\<close>

definition at :: "'a list \<Rightarrow> nat \<Rightarrow> panic + 'a" where
  "at xs i = (if i < length xs then Inr (xs ! i) else Inl IndexOutOfRange)"

text \<open>\<^verbatim>\<open>s[lo:hi]\<close>.\<close>

definition slice :: "'a list \<Rightarrow> nat \<Rightarrow> nat \<Rightarrow> panic + 'a list" where
  "slice xs lo hi =
     (if lo \<le> hi \<and> hi \<le> length xs then Inr (take (hi - lo) (drop lo xs))
      else Inl SliceOutOfRange)"

text \<open>\<^verbatim>\<open>s[i] = v\<close> for a slice.\<close>

definition store :: "'a list \<Rightarrow> nat \<Rightarrow> 'a \<Rightarrow> panic + 'a list" where
  "store xs i v = (if i < length xs then Inr (xs[i := v]) else Inl IndexOutOfRange)"

text \<open>
  \<^verbatim>\<open>for i := lo; i < n; i++ { s = body(i, s) }\<close>, where the body may panic or return an
  error (\<open>Inl\<close>), which ends the loop.
\<close>

function forLoop :: "nat \<Rightarrow> nat \<Rightarrow> (nat \<Rightarrow> 's \<Rightarrow> 'err + 's) \<Rightarrow> 's \<Rightarrow> 'err + 's" where
  "forLoop i n body s =
     (if i < n then
        (case body i s of
           Inl e \<Rightarrow> Inl e
         | Inr s' \<Rightarrow> forLoop (Suc i) n body s')
      else Inr s)"
  by pat_completeness auto
termination
  by (relation "measure (\<lambda>(i, n, body, s). n - i)") auto

declare forLoop.simps [simp del]

section \<open>NibbleDecoder: \<^verbatim>\<open>parseHexChar\<close>\<close>

text \<open>A rune is a code point; \<^verbatim>\<open>rune(line[i])\<close> converts one byte of a string.\<close>

type_synonym rune = int

definition rune :: "char \<Rightarrow> rune" where
  "rune c = of_char c"

definition parseHexChar :: "rune \<Rightarrow> int" where
  "parseHexChar c =
     (if c \<ge> rune (CHR ''0'') \<and> c \<le> rune (CHR ''9'') then c - rune (CHR ''0'')
      else if c \<ge> rune (CHR ''a'') \<and> c \<le> rune (CHR ''f'') then (c - rune (CHR ''a'')) + 10
      else if c \<ge> rune (CHR ''A'') \<and> c \<le> rune (CHR ''F'') then (c - rune (CHR ''A'')) + 10
      else -1)"

section \<open>MapModelBuilder: \<^verbatim>\<open>generateMapJSON\<close>\<close>

text \<open>
  \<^verbatim>\<open>MapCell{X, Y, Sprite}\<close> and \<^verbatim>\<open>MapSheet{Version, Description, Width, Height, Name, Cells}\<close>.
  The function returns \<^verbatim>\<open>(*MapSheet, error)\<close> with the error always \<^verbatim>\<open>nil\<close>; the model returns
  the sheet, or a panic.
\<close>

record MapCell =
  cellX :: int
  cellY :: int
  cellSprite :: int

record MapSheet =
  msVersion :: string
  msDescription :: string
  msWidth :: int
  msHeight :: int
  msName :: string
  msCells :: "MapCell list"

text \<open>
  The body of the inner loop of the base layer (source lines 292--305): a tile is two hex
  digits, the first is \<^verbatim>\<open>spriteY\<close>, the second \<^verbatim>\<open>spriteX\<close>; a pair that is not wholly inside
  the line appends nothing.
\<close>

definition baseTile :: "string \<Rightarrow> nat \<Rightarrow> nat \<Rightarrow> MapCell list \<Rightarrow> panic + MapCell list" where
  "baseTile line y x cells =
     (if x * 2 + 1 < length line then
        bind_res (at line (x * 2)) (\<lambda>c1.
        bind_res (at line (x * 2 + 1)) (\<lambda>c2.
          let spriteY = parseHexChar (rune c1);
              spriteX = parseHexChar (rune c2);
              spriteID = spriteY * 16 + spriteX;
              cell = \<lparr>cellX = int x, cellY = int y, cellSprite = spriteID\<rparr>
          in Inr (cells @ [cell])))
      else Inr cells)"

definition baseRow :: "string list \<Rightarrow> nat \<Rightarrow> nat \<Rightarrow> MapCell list \<Rightarrow> panic + MapCell list" where
  "baseRow mapData width y cells =
     (if y < length mapData then
        bind_res (at mapData y) (\<lambda>line. forLoop 0 width (baseTile line y) cells)
      else Inr cells)"

definition baseLayer :: "string list \<Rightarrow> nat \<Rightarrow> MapCell list \<Rightarrow> panic + MapCell list" where
  "baseLayer mapData width cells = forLoop 0 32 (baseRow mapData width) cells"

text \<open>
  The body of the inner loop of a dual-purpose section (source lines 323--347 for section
  3, 365--389 for section 4; the two differ only in the base row, 32 or 48): the first hex
  digit is \<^verbatim>\<open>spriteX\<close>, the second \<^verbatim>\<open>spriteY\<close>.
\<close>

definition bandTile :: "int \<Rightarrow> string \<Rightarrow> nat \<Rightarrow> nat \<Rightarrow> MapCell list \<Rightarrow> panic + MapCell list" where
  "bandTile bandBaseRow line y x cells =
     (let yIsEven = (y mod 2 = 0) in
      bind_res (at line (x * 2)) (\<lambda>c1.
      bind_res (at line (x * 2 + 1)) (\<lambda>c2.
        let spriteX = parseHexChar (rune c1);
            spriteY = parseHexChar (rune c2);
            spriteID = spriteY * 16 + spriteX
        in if yIsEven then
             Inr (cells @ [\<lparr>cellX = int x, cellY = bandBaseRow + int (y div 2), cellSprite = spriteID\<rparr>])
           else
             Inr (cells @ [\<lparr>cellX = 64 + int x, cellY = bandBaseRow + int ((y - 1) div 2),
                            cellSprite = spriteID\<rparr>]))))"

definition bandRow :: "int \<Rightarrow> string list \<Rightarrow> nat \<Rightarrow> MapCell list \<Rightarrow> panic + MapCell list" where
  "bandRow bandBaseRow sectionData y cells =
     bind_res (at sectionData y) (\<lambda>line.
       forLoop 0 (length line div 2) (bandTile bandBaseRow line y) cells)"

text \<open>
  The rows of the graphics section that a band reads (source lines 312--318 and 354--360,
  the same in \<^verbatim>\<open>main\<close>): \<^verbatim>\<open>gfxData[startRow:endRow]\<close> with the end clamped, or nothing when the
  graphics section is too short to reach the band.
\<close>

definition bandSlice :: "nat \<Rightarrow> string list \<Rightarrow> panic + string list option" where
  "bandSlice startRow gfxData =
     (let endRow = startRow + 32;
          endRow = (if endRow > length gfxData then length gfxData else endRow)
      in if startRow < length gfxData then
           bind_res (slice gfxData startRow endRow) (\<lambda>sectionData. Inr (Some sectionData))
         else Inr None)"

definition bandLayer :: "nat \<Rightarrow> int \<Rightarrow> string list \<Rightarrow> MapCell list \<Rightarrow> panic + MapCell list" where
  "bandLayer startRow bandBaseRow gfxData cells =
     bind_res (bandSlice startRow gfxData) (\<lambda>sect.
       case sect of
         None \<Rightarrow> Inr cells
       | Some sectionData \<Rightarrow>
           forLoop 0 (length sectionData) (bandRow bandBaseRow sectionData) cells)"

definition mapHeightOf :: "bool \<Rightarrow> bool \<Rightarrow> int" where
  "mapHeightOf useSection3 useSection4 =
     (let height = 32;
          height = (if useSection3 then 48 else height);
          height = (if useSection4 then 64 else height)
      in height)"

definition generateMapJSON :: "string list \<Rightarrow> string list \<Rightarrow> bool \<Rightarrow> bool \<Rightarrow> panic + MapSheet" where
  "generateMapJSON mapData gfxData useSection3 useSection4 =
     (let width = 128;
          height = mapHeightOf useSection3 useSection4
      in
      bind_res (baseLayer mapData width []) (\<lambda>cells.
      bind_res (if useSection3 then bandLayer (8 * 8) 32 gfxData cells else Inr cells) (\<lambda>cells.
      bind_res (if useSection4 then bandLayer (12 * 8) 48 gfxData cells else Inr cells) (\<lambda>cells.
        Inr \<lparr>msVersion = ''1.0'', msDescription = ''PICO-8 map export'',
             msWidth = int width, msHeight = height, msName = ''main'',
             msCells = cells\<rparr>))))"

section \<open>Section counts\<close>

text \<open>
  The value of \<^verbatim>\<open>numSections\<close> in the canonical variant's \<^verbatim>\<open>main\<close> (source lines 220--227).
\<close>

definition sectionCount :: "bool \<Rightarrow> bool \<Rightarrow> nat" where
  "sectionCount useSection3 useSection4 =
     (if \<not> useSection3 \<and> \<not> useSection4 then 4
      else if \<not> useSection3 then 3
      else if \<not> useSection4 then 3
      else 2)"

text \<open>
  The value of \<^verbatim>\<open>numSections\<close> in the historical variant's \<^verbatim>\<open>main\<close> (source lines
  1109--1112).
\<close>

definition sectionCount_historical :: "bool \<Rightarrow> bool \<Rightarrow> nat" where
  "sectionCount_historical useSection3 useSection4 =
     (if useSection3 \<or> useSection4 then 2 else 4)"

section \<open>Closed forms of the map loops\<close>

text \<open>
  What the loops of \<^verbatim>\<open>generateMapJSON\<close> append, written as list expressions. They are
  used to state and prove facts about the loops; the lemmas below show that the loops
  compute exactly these lists.
\<close>

definition base_cell :: "string \<Rightarrow> nat \<Rightarrow> nat \<Rightarrow> MapCell" where
  "base_cell line y x =
     \<lparr>cellX = int x, cellY = int y,
      cellSprite = parseHexChar (rune (line ! (x * 2))) * 16 + parseHexChar (rune (line ! (x * 2 + 1)))\<rparr>"

definition base_row_cells :: "string list \<Rightarrow> nat \<Rightarrow> nat \<Rightarrow> MapCell list" where
  "base_row_cells mapData width y =
     (if y < length mapData
      then map (base_cell (mapData ! y) y) (filter (\<lambda>x. x * 2 + 1 < length (mapData ! y)) [0..<width])
      else [])"

definition base_cells :: "string list \<Rightarrow> nat \<Rightarrow> MapCell list" where
  "base_cells mapData width = concat (map (base_row_cells mapData width) [0..<32])"

definition band_cell :: "int \<Rightarrow> string \<Rightarrow> nat \<Rightarrow> nat \<Rightarrow> MapCell" where
  "band_cell bandBaseRow line y x =
     \<lparr>cellX = (if even y then int x else 64 + int x),
      cellY = (if even y then bandBaseRow + int (y div 2) else bandBaseRow + int ((y - 1) div 2)),
      cellSprite = parseHexChar (rune (line ! (x * 2 + 1))) * 16 + parseHexChar (rune (line ! (x * 2)))\<rparr>"

definition band_rows :: "nat \<Rightarrow> string list \<Rightarrow> string list" where
  "band_rows startRow gfxData = take 32 (drop startRow gfxData)"

definition band_cells :: "nat \<Rightarrow> int \<Rightarrow> string list \<Rightarrow> MapCell list" where
  "band_cells startRow bandBaseRow gfxData =
     concat (map (\<lambda>y. map (band_cell bandBaseRow (band_rows startRow gfxData ! y) y)
                          [0..<length (band_rows startRow gfxData ! y) div 2])
                 [0..<length (band_rows startRow gfxData)])"

section \<open>Palette\<close>

text \<open>\<^verbatim>\<open>color.RGBA{R, G, B, A}\<close>, four \<^verbatim>\<open>uint8\<close>.\<close>

datatype rgba = RGBA (colR: "8 word") (colG: "8 word") (colB: "8 word") (colA: "8 word")

definition pico8Palette :: "rgba list" where
  "pico8Palette =
     [RGBA 0 0 0 255, RGBA 29 43 83 255, RGBA 126 37 83 255, RGBA 0 135 81 255,
      RGBA 171 82 54 255, RGBA 95 87 79 255, RGBA 194 195 199 255, RGBA 255 241 232 255,
      RGBA 255 0 77 255, RGBA 255 163 0 255, RGBA 255 236 39 255, RGBA 0 228 54 255,
      RGBA 41 173 255 255, RGBA 131 118 156 255, RGBA 255 119 168 255, RGBA 255 204 170 255]"

section \<open>AtlasModelBuilder: \<^verbatim>\<open>generateSpriteSheetJSON\<close>\<close>

record SpriteFlags =
  flagBitfield :: int
  flagIndividual :: "bool list"

record Sprite =
  sprID :: int
  sprX :: int
  sprY :: int
  sprWidth :: int
  sprHeight :: int
  sprPixels :: "int list list"
  sprFlags :: SpriteFlags
  sprUsed :: bool
  sprFilename :: string

record SpriteRange =
  rangeStart :: int
  rangeEnd :: int
  rangeUsed :: bool
  rangeDescription :: string

record SpriteSections =
  sectionsBase :: bool
  sectionsSection3 :: bool
  sectionsSection4 :: bool

record AvailableSprites =
  availTotal :: int
  availRanges :: "SpriteRange list"
  availSections :: SpriteSections

record PaletteColor =
  paletteR :: "8 word"
  paletteG :: "8 word"
  paletteB :: "8 word"
  paletteA :: "8 word"

record MetaData =
  metaSpriteWidth :: int
  metaSpriteHeight :: int
  metaGridWidth :: int
  metaGridHeight :: int
  metaAvailableSprites :: AvailableSprites
  metaPalette :: "PaletteColor list"

record SpriteSheet =
  sheetVersion :: string
  sheetDescription :: string
  sheetSprites :: "Sprite list"
  sheetMetadata :: MetaData

text \<open>\<^verbatim>\<open>getFlagArray\<close>: bit \<open>i\<close> of the flag byte, for \<open>i\<close> from 0 to 7.\<close>

definition getFlagArray :: "int \<Rightarrow> bool list" where
  "getFlagArray flagByte = map (\<lambda>i. (flagByte AND push_bit i 1) \<noteq> 0) [0..<8]"

text \<open>
  The metadata literal of source lines 794--809 and the two updates of lines 825--848: the
  base range is always listed, the range of a section is appended, and 64 added to the
  total, when the section's option is not set.
\<close>

definition baseAvailableSprites :: "bool \<Rightarrow> bool \<Rightarrow> AvailableSprites" where
  "baseAvailableSprites useSection3 useSection4 =
     \<lparr>availTotal = 128,
      availRanges = [\<lparr>rangeStart = 0, rangeEnd = 127, rangeUsed = True,
                      rangeDescription = ''Base sprites''\<rparr>],
      availSections = \<lparr>sectionsBase = True, sectionsSection3 = useSection3,
                       sectionsSection4 = useSection4\<rparr>\<rparr>"

definition addAvailableRange :: "SpriteRange \<Rightarrow> AvailableSprites \<Rightarrow> AvailableSprites" where
  "addAvailableRange r av =
     av\<lparr>availRanges := availRanges av @ [r], availTotal := availTotal av + 64\<rparr>"

definition availableSprites :: "bool \<Rightarrow> bool \<Rightarrow> AvailableSprites" where
  "availableSprites useSection3 useSection4 =
     (let av = baseAvailableSprites useSection3 useSection4;
          av = (if \<not> useSection3
                then addAvailableRange \<lparr>rangeStart = 128, rangeEnd = 191, rangeUsed = True,
                                         rangeDescription = ''Section 3 sprites''\<rparr> av
                else av);
          av = (if \<not> useSection4
                then addAvailableRange \<lparr>rangeStart = 192, rangeEnd = 255, rangeUsed = True,
                                         rangeDescription = ''Section 4 sprites''\<rparr> av
                else av)
      in av)"

text \<open>
  The pixel grid of one sprite (source lines 862--873). \<^verbatim>\<open>pixels[i][j] = v\<close> writes through
  the row slice \<^verbatim>\<open>pixels[i]\<close>.
\<close>

definition pixelSet :: "string \<Rightarrow> nat \<Rightarrow> nat \<Rightarrow> nat \<Rightarrow> int list list \<Rightarrow> panic + int list list" where
  "pixelSet line x i j pixels =
     (if x * 8 + j < length line then
        bind_res (at line (x * 8 + j)) (\<lambda>c.
        bind_res (at pixels i) (\<lambda>row.
        bind_res (store row j (parseHexChar (rune c))) (\<lambda>row'.
          store pixels i row')))
      else Inr pixels)"

function pixelCols :: "string \<Rightarrow> nat \<Rightarrow> nat \<Rightarrow> nat \<Rightarrow> int list list \<Rightarrow> panic + int list list" where
  "pixelCols line x i j pixels =
     (if j < 8 \<and> x * 8 + j < length line then
        (case pixelSet line x i j pixels of
           Inl e \<Rightarrow> Inl e
         | Inr pixels' \<Rightarrow> pixelCols line x i (Suc j) pixels')
      else Inr pixels)"
  by pat_completeness auto
termination
  by (relation "measure (\<lambda>(line, x, i, j, pixels). 8 - j)") auto

declare pixelCols.simps [simp del]

definition pixelRow :: "string list \<Rightarrow> nat \<Rightarrow> nat \<Rightarrow> nat \<Rightarrow> int list list \<Rightarrow> panic + int list list" where
  "pixelRow gfxData x y i pixels =
     bind_res (store pixels i (replicate 8 0)) (\<lambda>pixels.
       if y * 8 + i < length gfxData then
         bind_res (at gfxData (y * 8 + i)) (\<lambda>line. pixelCols line x i 0 pixels)
       else Inr pixels)"

definition pixelGrid :: "string list \<Rightarrow> nat \<Rightarrow> nat \<Rightarrow> panic + int list list" where
  "pixelGrid gfxData x y = forLoop 0 8 (pixelRow gfxData x y) (replicate 8 [])"

text \<open>
  The blank check (source lines 876--887): the inner loop stops at the first non-zero
  pixel, the outer loop stops once \<^verbatim>\<open>used\<close> is set.
\<close>

fun usedInRow :: "int list \<Rightarrow> bool \<Rightarrow> bool" where
  "usedInRow [] used = used"
| "usedInRow (pixel # row) used = (if pixel \<noteq> 0 then True else usedInRow row used)"

fun usedInRows :: "int list list \<Rightarrow> bool \<Rightarrow> bool" where
  "usedInRows [] used = used"
| "usedInRows (row # rows) used =
     (let used = usedInRow row used in if used then used else usedInRows rows used)"

text \<open>\<^verbatim>\<open>fmt.Sprintf("%03d", n)\<close> for a non-negative \<open>n\<close>: decimal, zero-padded to three digits.\<close>

fun decimal :: "nat \<Rightarrow> string" where
  "decimal n = (if n < 10 then [char_of (48 + n)] else decimal (n div 10) @ [char_of (48 + n mod 10)])"

declare decimal.simps [simp del]

definition sprintf03d :: "nat \<Rightarrow> string" where
  "sprintf03d n = (let ds = decimal n in replicate (3 - length ds) (CHR ''0'') @ ds)"

text \<open>One iteration of the sprite loop (source lines 851--906).\<close>

definition spriteStep ::
  "string list \<Rightarrow> int list \<Rightarrow> bool \<Rightarrow> bool \<Rightarrow> nat \<Rightarrow> Sprite list \<Rightarrow> panic + Sprite list" where
  "spriteStep gfxData flagData useSection3 useSection4 spriteID sprites =
     (if (spriteID \<ge> 128 \<and> spriteID < 192 \<and> useSection3) \<or> (spriteID \<ge> 192 \<and> useSection4)
      then Inr sprites
      else
        let x = spriteID mod 16;
            y = spriteID div 16
        in
        bind_res (pixelGrid gfxData x y) (\<lambda>pixels.
          let used = usedInRows pixels False in
          bind_res (at flagData spriteID) (\<lambda>flagByte.
            Inr (sprites @
              [\<lparr>sprID = int spriteID, sprX = int x, sprY = int y,
                sprWidth = 8, sprHeight = 8, sprPixels = pixels,
                sprFlags = \<lparr>flagBitfield = flagByte, flagIndividual = getFlagArray flagByte\<rparr>,
                sprUsed = used,
                sprFilename = ''sprite_'' @ sprintf03d spriteID @ ''.png''\<rparr>]))))"

definition generateSpriteSheetJSON ::
  "string list \<Rightarrow> int list \<Rightarrow> bool \<Rightarrow> bool \<Rightarrow> panic + SpriteSheet" where
  "generateSpriteSheetJSON gfxData flagData useSection3 useSection4 =
     (let palette = map (\<lambda>col. \<lparr>paletteR = colR col, paletteG = colG col,
                                paletteB = colB col, paletteA = colA col\<rparr>) pico8Palette;
          metadata = \<lparr>metaSpriteWidth = 8, metaSpriteHeight = 8,
                      metaGridWidth = 16, metaGridHeight = 16,
                      metaAvailableSprites = availableSprites useSection3 useSection4,
                      metaPalette = palette\<rparr>
      in
      bind_res (forLoop 0 256 (spriteStep gfxData flagData useSection3 useSection4) []) (\<lambda>sprites.
        Inr \<lparr>sheetVersion = ''1.0'', sheetDescription = ''PICO-8 spritesheet export'',
             sheetSprites = sprites, sheetMetadata = metadata\<rparr>))"

section \<open>Closed forms of the sprite loops\<close>

definition pixel_at :: "string list \<Rightarrow> nat \<Rightarrow> nat \<Rightarrow> int" where
  "pixel_at gfxData px py =
     (if py < length gfxData \<and> px < length (gfxData ! py)
      then parseHexChar (rune (gfxData ! py ! px)) else 0)"

definition pixel_row :: "string list \<Rightarrow> nat \<Rightarrow> nat \<Rightarrow> nat \<Rightarrow> int list" where
  "pixel_row gfxData x y i = map (\<lambda>j. pixel_at gfxData (x * 8 + j) (y * 8 + i)) [0..<8]"

definition pixel_grid :: "string list \<Rightarrow> nat \<Rightarrow> nat \<Rightarrow> int list list" where
  "pixel_grid gfxData x y = map (pixel_row gfxData x y) [0..<8]"

definition sprite_skipped :: "bool \<Rightarrow> bool \<Rightarrow> nat \<Rightarrow> bool" where
  "sprite_skipped useSection3 useSection4 n =
     ((n \<ge> 128 \<and> n < 192 \<and> useSection3) \<or> (n \<ge> 192 \<and> useSection4))"

definition sprite_of :: "string list \<Rightarrow> int list \<Rightarrow> nat \<Rightarrow> Sprite" where
  "sprite_of gfxData flagData n =
     \<lparr>sprID = int n, sprX = int (n mod 16), sprY = int (n div 16),
      sprWidth = 8, sprHeight = 8, sprPixels = pixel_grid gfxData (n mod 16) (n div 16),
      sprFlags = \<lparr>flagBitfield = flagData ! n, flagIndividual = getFlagArray (flagData ! n)\<rparr>,
      sprUsed = usedInRows (pixel_grid gfxData (n mod 16) (n div 16)) False,
      sprFilename = ''sprite_'' @ sprintf03d n @ ''.png''\<rparr>"

definition range_ids :: "SpriteRange \<Rightarrow> int set" where
  "range_ids r = {rangeStart r..rangeEnd r}"

section \<open>Images\<close>

text \<open>
  \<^verbatim>\<open>*image.RGBA\<close> with bounds \<^verbatim>\<open>image.Rect(0, 0, w, h)\<close>. \<^verbatim>\<open>At\<close> returns the zero colour outside
  the bounds and \<^verbatim>\<open>Set\<close> does nothing there; a new image is all zero (transparent).
\<close>

record Image =
  imgW :: int
  imgH :: int
  imgPix :: "int \<times> int \<Rightarrow> rgba"

definition NewRGBA :: "int \<Rightarrow> int \<Rightarrow> Image" where
  "NewRGBA w h = \<lparr>imgW = w, imgH = h, imgPix = (\<lambda>p. RGBA 0 0 0 0)\<rparr>"

definition inBounds :: "Image \<Rightarrow> int \<Rightarrow> int \<Rightarrow> bool" where
  "inBounds img x y = (0 \<le> x \<and> x < imgW img \<and> 0 \<le> y \<and> y < imgH img)"

definition imgAt :: "Image \<Rightarrow> int \<Rightarrow> int \<Rightarrow> rgba" where
  "imgAt img x y = (if inBounds img x y then imgPix img (x, y) else RGBA 0 0 0 0)"

definition imgSet :: "Image \<Rightarrow> int \<Rightarrow> int \<Rightarrow> rgba \<Rightarrow> Image" where
  "imgSet img x y c = (if inBounds img x y then img\<lparr>imgPix := (imgPix img)((x, y) := c)\<rparr> else img)"

text \<open>
  The nested pixel loops of the source, all of the shape
  \<^verbatim>\<open>for yy := 0; yy < h; yy++ { for xx := 0; xx < w; xx++ { dst.Set(x0+xx, y0+yy, c(xx, yy)) } }\<close>.
\<close>

definition setBlock :: "nat \<Rightarrow> nat \<Rightarrow> int \<Rightarrow> int \<Rightarrow> (nat \<Rightarrow> nat \<Rightarrow> rgba) \<Rightarrow> Image \<Rightarrow> Image" where
  "setBlock w h x0 y0 c dst =
     fold (\<lambda>yy dst. fold (\<lambda>xx dst. imgSet dst (x0 + int xx) (y0 + int yy) (c xx yy)) [0..<w] dst)
       [0..<h] dst"

section \<open>MapCompositor: \<^verbatim>\<open>renderMap\<close>\<close>

definition drawSprite :: "Image \<Rightarrow> Image \<Rightarrow> int \<Rightarrow> int \<Rightarrow> int \<Rightarrow> int \<Rightarrow> Image" where
  "drawSprite dst src spriteX spriteY dstTileX dstTileY =
     (let tileSize = 8;
          srcX = spriteX * tileSize;
          srcY = spriteY * tileSize;
          dstX = dstTileX * tileSize;
          dstY = dstTileY * tileSize
      in setBlock 8 8 dstX dstY (\<lambda>xx yy. imgAt src (srcX + int xx) (srcY + int yy)) dst)"

definition drawBlackTile :: "Image \<Rightarrow> int \<Rightarrow> int \<Rightarrow> Image" where
  "drawBlackTile dst tileX tileY =
     (let tileSize = 8;
          dstX = tileX * tileSize;
          dstY = tileY * tileSize
      in setBlock 8 8 dstX dstY (\<lambda>xx yy. pico8Palette ! 0) dst)"

text \<open>One tile of the regular map (source lines 472--477).\<close>

definition mapTileDraw :: "Image \<Rightarrow> string \<Rightarrow> nat \<Rightarrow> nat \<Rightarrow> Image \<Rightarrow> panic + Image" where
  "mapTileDraw spriteSheet line y x mapImage =
     bind_res (at line (x * 2)) (\<lambda>c1.
     bind_res (at line (x * 2 + 1)) (\<lambda>c2.
       let spriteY = parseHexChar (rune c1);
           spriteX = parseHexChar (rune c2)
       in if spriteX \<noteq> 0 \<or> spriteY \<noteq> 0
          then Inr (drawSprite mapImage spriteSheet spriteX spriteY (int x) (int y))
          else Inr mapImage))"

text \<open>One tile of dual-purpose section 1, that is section 3 (source lines 486--501).\<close>

definition section3TileDraw :: "Image \<Rightarrow> string \<Rightarrow> nat \<Rightarrow> nat \<Rightarrow> Image \<Rightarrow> panic + Image" where
  "section3TileDraw spriteSheet line y x mapImage =
     bind_res (at line (x * 2)) (\<lambda>c1.
     bind_res (at line (x * 2 + 1)) (\<lambda>c2.
       let spriteX = parseHexChar (rune c1);
           spriteY = parseHexChar (rune c2);
           yIsEven = (y mod 2 = 0)
       in if yIsEven then
            (if spriteX \<noteq> 0 \<or> spriteY \<noteq> 0
             then Inr (drawSprite mapImage spriteSheet spriteX spriteY (int x) (32 + int (y div 2)))
             else Inr (drawBlackTile mapImage (int x) (32 + int (y div 2))))
          else
            (if spriteX \<noteq> 0 \<or> spriteY \<noteq> 0
             then Inr (drawSprite mapImage spriteSheet spriteX spriteY (64 + int x)
                         (32 + int ((y - 1) div 2)))
             else Inr mapImage)))"

text \<open>One tile of dual-purpose section 2, that is section 4 (source lines 511--523).\<close>

definition section4TileDraw :: "Image \<Rightarrow> string \<Rightarrow> nat \<Rightarrow> nat \<Rightarrow> Image \<Rightarrow> panic + Image" where
  "section4TileDraw spriteSheet line y x mapImage =
     bind_res (at line (x * 2)) (\<lambda>c1.
     bind_res (at line (x * 2 + 1)) (\<lambda>c2.
       let spriteX = parseHexChar (rune c1);
           spriteY = parseHexChar (rune c2);
           yIsEven = (y mod 2 = 0)
       in if yIsEven then
            (if spriteX \<noteq> 0 \<or> spriteY \<noteq> 0
             then Inr (drawSprite mapImage spriteSheet spriteX spriteY (int x) (48 + int (y div 2)))
             else Inr mapImage)
          else
            (if spriteX \<noteq> 0 \<or> spriteY \<noteq> 0
             then Inr (drawSprite mapImage spriteSheet spriteX spriteY (64 + int x)
                         (48 + int ((y - 1) div 2)))
             else Inr mapImage)))"

text \<open>
  The row loop shared by the three layers:
  \<^verbatim>\<open>for y := 0; y < len(rows); y++ { line := rows[y]; for x := 0; x < len(line)/2; x++ {...} }\<close>.
\<close>

definition drawRows ::
  "(string \<Rightarrow> nat \<Rightarrow> nat \<Rightarrow> Image \<Rightarrow> panic + Image) \<Rightarrow> string list \<Rightarrow> Image \<Rightarrow> panic + Image" where
  "drawRows tileDraw rows mapImage =
     forLoop 0 (length rows)
       (\<lambda>y mapImage. bind_res (at rows y) (\<lambda>line.
          forLoop 0 (length line div 2) (tileDraw line y) mapImage))
       mapImage"

text \<open>
  \<^verbatim>\<open>renderMap\<close>. A \<^verbatim>\<open>nil\<close> dual-purpose section is \<open>None\<close>.
\<close>

definition renderMap ::
  "string list \<Rightarrow> string list option \<Rightarrow> string list option \<Rightarrow> Image \<Rightarrow> nat \<Rightarrow> nat
     \<Rightarrow> panic + Image" where
  "renderMap mapData dualPurposeSection1 dualPurposeSection2 spriteSheet mapWidth mapHeight =
     (let tileSize = 8;
          mapImage = NewRGBA (int (mapWidth * tileSize)) (int (mapHeight * tileSize));
          mapImage = setBlock (mapWidth * tileSize) (mapHeight * tileSize) 0 0
                       (\<lambda>x y. pico8Palette ! 0) mapImage
      in
      bind_res (drawRows (mapTileDraw spriteSheet) mapData mapImage) (\<lambda>mapImage.
      bind_res (case dualPurposeSection1 of
                  None \<Rightarrow> Inr mapImage
                | Some rows \<Rightarrow> drawRows (section3TileDraw spriteSheet) rows mapImage) (\<lambda>mapImage.
      bind_res (case dualPurposeSection2 of
                  None \<Rightarrow> Inr mapImage
                | Some rows \<Rightarrow> drawRows (section4TileDraw spriteSheet) rows mapImage) (\<lambda>mapImage.
        Inr mapImage))))"

section \<open>SectionCompositor: \<^verbatim>\<open>saveSprites\<close> and \<^verbatim>\<open>combineSectionsIntoSpriteSheet\<close>\<close>

text \<open>
  The section images travel through files: \<^verbatim>\<open>saveSprites\<close> writes
  \<^verbatim>\<open>sprites/section_<i>.png\<close> and \<^verbatim>\<open>combineSectionsIntoSpriteSheet\<close> reads them back. The file
  system is a map from paths to the images that were saved. Creating a directory or a file
  is taken to succeed, and opening a file that does not exist is the error \<open>FailedToOpen\<close>.

  The PNG codec is Go's \<^verbatim>\<open>image/png\<close>, not code of the converter. The program uses a loaded
  image only as \<^verbatim>\<open>combined.Set(x, y, sectionImg.At(x, y))\<close>. The encoder writes a pixel of an
  \<^verbatim>\<open>*image.RGBA\<close> that is neither opaque nor fully transparent without alpha
  premultiplication (the conversion of \<^verbatim>\<open>color.NRGBAModel\<close>), and \<^verbatim>\<open>Set\<close> premultiplies the
  decoded colour again (\<^verbatim>\<open>color.RGBAModel\<close>), so such a pixel may change; a pixel of alpha 0
  comes back as all zero and a pixel of alpha 255 unchanged. The model keeps RGBA pixels
  throughout: a loaded image holds, at each pixel, the colour that \<^verbatim>\<open>Set\<close> stores from it.
\<close>

type_synonym files = "string \<rightharpoonup> Image"

datatype ioerror = FailedToOpen string

definition saveAsPng :: "Image \<Rightarrow> string \<Rightarrow> files \<Rightarrow> files" where
  "saveAsPng img path fs = fs(path \<mapsto> img)"

text \<open>
  One colour channel \<open>c\<close> of a pixel of alpha \<open>a\<close>, with \<open>0 < a < 255\<close>: the encoder stores
  \<^verbatim>\<open>uint8((c16 * 0xffff / a16) >> 8)\<close>, where \<^verbatim>\<open>c16 = c * 0x101\<close> and \<^verbatim>\<open>a16 = a * 0x101\<close>; \<^verbatim>\<open>Set\<close>
  stores \<^verbatim>\<open>uint8((n * 0x101 * a / 0xff) >> 8)\<close> of the decoded channel \<open>n\<close>.
\<close>

definition unpremultiplied :: "8 word \<Rightarrow> 8 word \<Rightarrow> 8 word" where
  "unpremultiplied c a = of_nat (((unat c * 257 * 65535) div (unat a * 257)) div 256)"

definition premultiplied :: "8 word \<Rightarrow> 8 word \<Rightarrow> 8 word" where
  "premultiplied n a = of_nat (((unat n * 257 * unat a) div 255) div 256)"

definition pngPixel :: "rgba \<Rightarrow> rgba" where
  "pngPixel col =
     (case col of
        RGBA r g b a \<Rightarrow>
          if a = 0 then RGBA 0 0 0 0
          else if a = 255 then RGBA r g b a
          else RGBA (premultiplied (unpremultiplied r a) a)
                    (premultiplied (unpremultiplied g a) a)
                    (premultiplied (unpremultiplied b a) a) a)"

definition pngDecoded :: "Image \<Rightarrow> Image" where
  "pngDecoded img = img\<lparr>imgPix := (\<lambda>p. pngPixel (imgPix img p))\<rparr>"

definition loadImage :: "string \<Rightarrow> files \<Rightarrow> ioerror + Image" where
  "loadImage path fs =
     (case fs path of
        None \<Rightarrow> Inl (FailedToOpen path)
      | Some img \<Rightarrow> Inr (pngDecoded img))"

text \<open>\<^verbatim>\<open>fmt.Sprintf("sprites/section_%d.png", i)\<close>.\<close>

definition sectionPath :: "nat \<Rightarrow> string" where
  "sectionPath i = ''sprites/section_'' @ decimal i @ ''.png''"

text \<open>The ranges of sprites to export (source lines 565--578).\<close>

definition spriteRanges :: "bool \<Rightarrow> bool \<Rightarrow> (nat \<times> nat) list" where
  "spriteRanges useSection3 useSection4 =
     [(0, 127)] @ (if \<not> useSection3 then [(128, 191)] else [])
               @ (if \<not> useSection4 then [(192, 255)] else [])"

text \<open>One sprite file (source lines 610--624).\<close>

definition saveSprite :: "Image \<Rightarrow> nat \<Rightarrow> files \<Rightarrow> files" where
  "saveSprite spriteSheet spriteNum fs =
     (let tileSize = 8;
          spritesPerRow = 16;
          spriteY = (spriteNum div spritesPerRow) * tileSize;
          spriteX = (spriteNum mod spritesPerRow) * tileSize;
          sprImg = NewRGBA (int tileSize) (int tileSize);
          sprImg = setBlock tileSize tileSize 0 0
                     (\<lambda>xx yy. imgAt spriteSheet (int spriteX + int xx) (int spriteY + int yy)) sprImg
      in saveAsPng sprImg (''sprites/sprite_'' @ sprintf03d spriteNum @ ''.png'') fs)"

text \<open>One 128\<times>32 section file (source lines 635--648).\<close>

definition sectionImage :: "Image \<Rightarrow> nat \<Rightarrow> Image" where
  "sectionImage spriteSheet i =
     (let subImageHeight = 32;
          subImageWidth = 128;
          subImg = NewRGBA (int subImageWidth) (int subImageHeight);
          startY = i * subImageHeight
      in setBlock subImageWidth subImageHeight 0 0
           (\<lambda>xx yy. imgAt spriteSheet (int xx) (int startY + int yy)) subImg)"

definition saveSection :: "Image \<Rightarrow> nat \<Rightarrow> files \<Rightarrow> files" where
  "saveSection spriteSheet i fs = saveAsPng (sectionImage spriteSheet i) (sectionPath i) fs"

text \<open>
  \<^verbatim>\<open>saveSprites\<close>. It decides the number of sections by the same chain of tests as \<^verbatim>\<open>main\<close>
  (source lines 588--595).
\<close>

definition saveSprites :: "Image \<Rightarrow> bool \<Rightarrow> bool \<Rightarrow> files \<Rightarrow> files" where
  "saveSprites spriteSheet useSection3 useSection4 fs =
     (let fs = fold (\<lambda>(start, end) fs.
                       if useSection3 \<and> useSection4 \<and> start > 127 then fs
                       else fold (saveSprite spriteSheet) [start..<end + 1] fs)
                 (spriteRanges useSection3 useSection4) fs
      in fold (saveSection spriteSheet) [0..<sectionCount useSection3 useSection4] fs)"

text \<open>\<^verbatim>\<open>combineSectionsIntoSpriteSheet\<close> (source lines 698--740).\<close>

definition copySection :: "Image \<Rightarrow> nat \<Rightarrow> Image \<Rightarrow> Image" where
  "copySection sectionImg i combined =
     (let sectionWidth = 128;
          sectionHeight = 32;
          destY = i * sectionHeight
      in setBlock sectionWidth sectionHeight 0 (int destY)
           (\<lambda>x y. imgAt sectionImg (int x) (int y)) combined)"

definition clearSection :: "nat \<Rightarrow> Image \<Rightarrow> Image" where
  "clearSection i combined =
     (let sectionWidth = 128;
          sectionHeight = 32;
          destY = i * sectionHeight
      in setBlock sectionWidth sectionHeight 0 (int destY) (\<lambda>x y. RGBA 0 0 0 0) combined)"

definition combineSectionsIntoSpriteSheet :: "nat \<Rightarrow> files \<Rightarrow> ioerror + files" where
  "combineSectionsIntoSpriteSheet numSections fs =
     (let sectionWidth = 128;
          sectionHeight = 32;
          combined = NewRGBA sectionWidth (sectionHeight * 4)
      in
      bind_res (forLoop 0 numSections
                  (\<lambda>i combined.
                     bind_res (loadImage (sectionPath i) fs) (\<lambda>sectionImg.
                       Inr (copySection sectionImg i combined)))
                  combined) (\<lambda>combined.
        let combined = fold clearSection [numSections..<4] combined
        in Inr (saveAsPng combined ''spritesheet.png'' fs)))"

text \<open>
  The part of \<^verbatim>\<open>main\<close> that exports the sheet (source lines 217--230): save the sections,
  then combine as many of them as the options leave to the sprites.
\<close>

definition exportSheet :: "Image \<Rightarrow> bool \<Rightarrow> bool \<Rightarrow> files \<Rightarrow> ioerror + files" where
  "exportSheet spriteSheet useSection3 useSection4 fs =
     (let fs = saveSprites spriteSheet useSection3 useSection4 fs;
          numSections = sectionCount useSection3 useSection4
      in combineSectionsIntoSpriteSheet numSections fs)"

section \<open>AtlasReconstructor: \<^verbatim>\<open>reconstructImage\<close>\<close>

text \<open>
  \<^verbatim>\<open>for x, hexChar := range line\<close> walks a string rune by rune: \<^verbatim>\<open>x\<close> is the byte offset at
  which the rune starts and \<^verbatim>\<open>hexChar\<close> the code point decoded from the UTF-8 bytes there.
  A byte below 128 is its own rune; a well-formed sequence of two to four bytes is one
  rune; any other byte is the rune \<^verbatim>\<open>U+FFFD\<close> of width one. This is the Go language's
  decoding, not code of the converter.
\<close>

definition continuation :: "nat \<Rightarrow> bool" where
  "continuation b = (128 \<le> b \<and> b \<le> 191)"

definition runeError :: rune where
  "runeError = 65533"

fun decodeRune :: "nat list \<Rightarrow> rune \<times> nat" where
  "decodeRune [] = (runeError, 1)"
| "decodeRune (b0 # rest) =
     (if b0 < 128 then (int b0, 1)
      else if 194 \<le> b0 \<and> b0 \<le> 223 then
        (case rest of
           b1 # _ \<Rightarrow>
             if continuation b1 then (int ((b0 mod 32) * 64 + b1 mod 64), 2)
             else (runeError, 1)
         | _ \<Rightarrow> (runeError, 1))
      else if 224 \<le> b0 \<and> b0 \<le> 239 then
        (case rest of
           b1 # b2 # _ \<Rightarrow>
             if (if b0 = 224 then 160 else 128) \<le> b1 \<and> b1 \<le> (if b0 = 237 then 159 else 191)
                \<and> continuation b2
             then (int ((b0 mod 16) * 4096 + (b1 mod 64) * 64 + b2 mod 64), 3)
             else (runeError, 1)
         | _ \<Rightarrow> (runeError, 1))
      else if 240 \<le> b0 \<and> b0 \<le> 244 then
        (case rest of
           b1 # b2 # b3 # _ \<Rightarrow>
             if (if b0 = 240 then 144 else 128) \<le> b1 \<and> b1 \<le> (if b0 = 244 then 143 else 191)
                \<and> continuation b2 \<and> continuation b3
             then (int ((b0 mod 8) * 262144 + (b1 mod 64) * 4096 + (b2 mod 64) * 64 + b3 mod 64), 4)
             else (runeError, 1)
         | _ \<Rightarrow> (runeError, 1))
      else (runeError, 1))"

function stringRange :: "nat \<Rightarrow> string \<Rightarrow> (nat \<times> rune) list" where
  "stringRange x s =
     (if s = [] then []
      else (x, fst (decodeRune (map of_char s)))
           # stringRange (x + snd (decodeRune (map of_char s)))
               (drop (snd (decodeRune (map of_char s))) s))"
  by pat_completeness auto
termination
proof (relation "measure (\<lambda>(x, s). length s)")
  show "wf (measure (\<lambda>(x, s). length s))" by simp
next
  fix x :: nat and s :: string
  assume "s \<noteq> []"
  moreover have "1 \<le> snd (decodeRune bs)" for bs
    by (cases bs) (auto split: list.splits)
  then have "1 \<le> snd (decodeRune (map of_char s))" .
  ultimately show "((x + snd (decodeRune (map of_char s)), drop (snd (decodeRune (map of_char s))) s), x, s)
          \<in> measure (\<lambda>(x, s). length s)"
    by (cases s) simp_all
qed

declare stringRange.simps [simp del]

text \<open>\<^verbatim>\<open>for _, a := range as { s = body(a, s) }\<close>, where the body may panic.\<close>

fun forRange :: "('a \<Rightarrow> 's \<Rightarrow> 'err + 's) \<Rightarrow> 'a list \<Rightarrow> 's \<Rightarrow> 'err + 's" where
  "forRange body [] s = Inr s"
| "forRange body (a # as) s =
     (case body a s of
        Inl failure \<Rightarrow> Inl failure
      | Inr s' \<Rightarrow> forRange body as s')"

text \<open>The colour of one character (source lines 437--443).\<close>

definition pixelColor :: "rune \<Rightarrow> panic + rgba" where
  "pixelColor hexChar =
     (let colorIndex = parseHexChar hexChar
      in if colorIndex \<ge> 0 \<and> colorIndex < int (length pico8Palette)
         then at pico8Palette (nat colorIndex)
         else at pico8Palette 0)"

definition reconstructImage :: "string list \<Rightarrow> panic + Image" where
  "reconstructImage gfxData =
     (let size = 16 * 8;
          img = NewRGBA size size
      in forRange
           (\<lambda>(y, line) img.
              forRange
                (\<lambda>(x, hexChar) img.
                   bind_res (pixelColor hexChar) (\<lambda>c. Inr (imgSet img (int x) (int y) c)))
                (stringRange 0 line) img)
           (enumerate 0 gfxData) img)"

section \<open>FlagDecoder: \<^verbatim>\<open>parseFlagSection\<close>\<close>

text \<open>
  \<^verbatim>\<open>parseFlagSection\<close>, applied to the lines of the flag section (the source's \<^verbatim>\<open>section\<close>,
  here \<open>flagLines\<close>). The table starts as 256 zeros; the first two lines fill it, two hex
  digits per sprite. The loop test
  \<^verbatim>\<open>i < len(line)-1\<close> is written \<open>i + 1 < length line\<close>, which is the same for \<open>i \<ge> 0\<close> and
  does not need a negative length.
\<close>

definition flagStore :: "string \<Rightarrow> nat \<Rightarrow> nat \<Rightarrow> int list \<Rightarrow> panic + int list" where
  "flagStore line i spriteIndex flagData =
     bind_res (at line i) (\<lambda>c1.
     bind_res (at line (i + 1)) (\<lambda>c2.
       let flagValue = parseHexChar (rune c1) * 16 + parseHexChar (rune c2)
       in store flagData spriteIndex flagValue))"

function flagCols :: "string \<Rightarrow> nat \<Rightarrow> nat \<Rightarrow> int list \<Rightarrow> panic + int list" where
  "flagCols line lineNum i flagData =
     (if i + 1 < length line \<and> i div 2 < 128 then
        (let spriteIndex = (lineNum * 128) + (i div 2)
         in if spriteIndex \<ge> 256 then Inr flagData
            else (case flagStore line i spriteIndex flagData of
                    Inl failure \<Rightarrow> Inl failure
                  | Inr flagData' \<Rightarrow> flagCols line lineNum (i + 2) flagData'))
      else Inr flagData)"
  by pat_completeness auto
termination
  by (relation "measure (\<lambda>(line, lineNum, i, flagData). 256 - i)") auto

declare flagCols.simps [simp del]

fun flagRows :: "nat \<Rightarrow> string list \<Rightarrow> int list \<Rightarrow> panic + int list" where
  "flagRows lineNum [] flagData = Inr flagData"
| "flagRows lineNum (line # rest) flagData =
     (if lineNum \<ge> 2 then Inr flagData
      else (case flagCols line lineNum 0 flagData of
              Inl failure \<Rightarrow> Inl failure
            | Inr flagData' \<Rightarrow> flagRows (lineNum + 1) rest flagData'))"

definition parseFlagSection :: "string list \<Rightarrow> panic + int list" where
  "parseFlagSection flagLines =
     (let flagData = replicate 256 0
      in if length flagLines = 0 then Inr flagData
         else flagRows 0 flagLines flagData)"

section \<open>Closed form of the atlas raster\<close>

text \<open>
  The colour that \<^verbatim>\<open>reconstructImage\<close> sets for a rune, and the list of pixel writes it
  performs, in order: one write per rune of each line, at the rune's byte offset.
\<close>

definition pixel_color :: "rune \<Rightarrow> rgba" where
  "pixel_color hexChar =
     (if 0 \<le> parseHexChar hexChar \<and> parseHexChar hexChar < 16
      then pico8Palette ! nat (parseHexChar hexChar) else pico8Palette ! 0)"

definition setPixel :: "(nat \<times> nat) \<times> rgba \<Rightarrow> Image \<Rightarrow> Image" where
  "setPixel w img = imgSet img (int (fst (fst w))) (int (snd (fst w))) (snd w)"

definition row_pixels :: "nat \<times> string \<Rightarrow> ((nat \<times> nat) \<times> rgba) list" where
  "row_pixels r = map (\<lambda>xc. ((fst xc, fst r), pixel_color (snd xc))) (stringRange 0 (snd r))"

definition atlas_pixels :: "nat \<Rightarrow> string list \<Rightarrow> ((nat \<times> nat) \<times> rgba) list" where
  "atlas_pixels k gfxData = concat (map row_pixels (enumerate k gfxData))"

section \<open>Closed form of the map raster\<close>

text \<open>
  What \<^verbatim>\<open>renderMap\<close> does to the image, as a list of tile operations in the order of its
  loops. An operation names a destination tile and what is drawn there: \<open>Some c\<close> paints the
  8\<times>8 block of the tile with the colours \<open>c\<close>, \<open>None\<close> draws nothing. \<open>inTile t px py\<close> says
  that the pixel \<open>(px, py)\<close> lies in the block of the tile \<open>t\<close>.
\<close>

type_synonym tileOp = "(int \<times> int) \<times> (nat \<Rightarrow> nat \<Rightarrow> rgba) option"


definition paintOp :: "tileOp \<Rightarrow> Image \<Rightarrow> Image" where
  "paintOp w img =
     (case snd w of
        None \<Rightarrow> img
      | Some c \<Rightarrow> setBlock 8 8 (fst (fst w) * 8) (snd (fst w) * 8) c img)"






text \<open>The operations of one layer, row by row and tile by tile.\<close>

definition tileOps :: "(string \<Rightarrow> nat \<Rightarrow> nat \<Rightarrow> tileOp) \<Rightarrow> string list \<Rightarrow> tileOp list" where
  "tileOps f rows =
     concat (map (\<lambda>y. map (f (rows ! y) y) [0..<length (rows ! y) div 2]) [0..<length rows])"



section \<open>Loop lemmas\<close>

lemma bind_res_Inr [simp]: "bind_res (Inr v) f = f v"
  by (simp add: bind_res_def)

lemma bind_res_Inl [simp]: "bind_res (Inl e) f = Inl e"
  by (simp add: bind_res_def)

lemma at_in_range [simp]: "i < length xs \<Longrightarrow> at xs i = Inr (xs ! i)"
  by (simp add: at_def)

lemma forLoop_done [simp]: "n \<le> i \<Longrightarrow> forLoop i n body s = Inr s"
  by (simp add: forLoop.simps)

lemma forLoop_total:
  assumes "\<And>j t. i \<le> j \<Longrightarrow> j < n \<Longrightarrow> body j t = Inr (f j t)"
  shows "forLoop i n body s = Inr (fold f [i..<n] s)"
  using assms
proof (induction i n body s rule: forLoop.induct)
  case (1 i n body s)
  show ?case
  proof (cases "i < n")
    case True
    have step: "body i s = Inr (f i s)"
      using "1.prems" True by simp
    have rest: "forLoop (Suc i) n body (f i s) = Inr (fold f [Suc i..<n] (f i s))"
      using "1.IH" [OF True step] "1.prems" by simp
    show ?thesis
      using True step rest by (simp add: forLoop.simps [of i] upt_conv_Cons)
  next
    case False
    then show ?thesis by simp
  qed
qed

lemma fold_append_each: "fold (\<lambda>j acc. acc @ g j) js acc = acc @ concat (map g js)"
  by (induction js arbitrary: acc) simp_all

section \<open>The map loops compute their closed forms\<close>

lemma baseTile_closed:
  "baseTile line y x cells =
     Inr (cells @ (if x * 2 + 1 < length line then [base_cell line y x] else []))"
  by (simp add: baseTile_def base_cell_def Let_def)

lemma fold_append_filter:
  "fold (\<lambda>j acc. acc @ (if P j then [g j] else [])) js acc = acc @ map g (filter P js)"
  by (induction js arbitrary: acc) simp_all

lemma baseRow_closed:
  "baseRow mapData width y cells = Inr (cells @ base_row_cells mapData width y)"
proof (cases "y < length mapData")
  case True
  have "forLoop 0 width (baseTile (mapData ! y) y) cells =
          Inr (fold (\<lambda>x acc. acc @ (if x * 2 + 1 < length (mapData ! y)
                                     then [base_cell (mapData ! y) y x] else [])) [0..<width] cells)"
    by (rule forLoop_total) (rule baseTile_closed)
  then show ?thesis
    using True by (simp add: baseRow_def base_row_cells_def fold_append_filter)
next
  case False
  then show ?thesis by (simp add: baseRow_def base_row_cells_def)
qed

lemma baseLayer_closed:
  "baseLayer mapData width cells = Inr (cells @ base_cells mapData width)"
proof -
  have "forLoop 0 32 (baseRow mapData width) cells =
          Inr (fold (\<lambda>y acc. acc @ base_row_cells mapData width y) [0..<32] cells)"
    by (rule forLoop_total) (rule baseRow_closed)
  then show ?thesis
    by (simp only: baseLayer_def base_cells_def fold_append_each)
qed

lemma bandTile_closed:
  assumes "x < length line div 2"
  shows "bandTile b line y x cells = Inr (cells @ [band_cell b line y x])"
proof -
  from assms have "x * 2 < length line" "x * 2 + 1 < length line" by auto
  then show ?thesis
    by (cases "even y") (simp_all add: bandTile_def band_cell_def Let_def even_iff_mod_2_eq_zero)
qed

lemma bandRow_closed:
  assumes "y < length sectionData"
  shows "bandRow b sectionData y cells =
           Inr (cells @ map (band_cell b (sectionData ! y) y) [0..<length (sectionData ! y) div 2])"
proof -
  have "forLoop 0 (length (sectionData ! y) div 2) (bandTile b (sectionData ! y) y) cells =
          Inr (fold (\<lambda>x acc. acc @ [band_cell b (sectionData ! y) y x])
                 [0..<length (sectionData ! y) div 2] cells)"
    by (rule forLoop_total) (simp add: bandTile_closed)
  moreover have "fold (\<lambda>x acc. acc @ [band_cell b (sectionData ! y) y x])
                 [0..<length (sectionData ! y) div 2] cells
               = cells @ map (band_cell b (sectionData ! y) y) [0..<length (sectionData ! y) div 2]"
    using fold_append_each [of "\<lambda>x. [band_cell b (sectionData ! y) y x]"]
    by simp
  ultimately show ?thesis
    using assms by (simp add: bandRow_def)
qed

lemma bandSlice_closed:
  "bandSlice startRow gfxData =
     Inr (if startRow < length gfxData then Some (band_rows startRow gfxData) else None)"
proof (cases "startRow < length gfxData")
  case True
  have "take (min (startRow + 32) (length gfxData) - startRow) (drop startRow gfxData)
          = take 32 (drop startRow gfxData)"
    using True by (cases "startRow + 32 \<le> length gfxData") (simp_all add: min_def)
  with True show ?thesis
    by (auto simp add: bandSlice_def band_rows_def slice_def Let_def min_def)
next
  case False
  then show ?thesis by (simp add: bandSlice_def Let_def)
qed

lemma band_rows_empty: "\<not> startRow < length gfxData \<Longrightarrow> band_rows startRow gfxData = []"
  by (simp add: band_rows_def)

lemma bandLayer_closed:
  "bandLayer startRow b gfxData cells = Inr (cells @ band_cells startRow b gfxData)"
proof (cases "startRow < length gfxData")
  case True
  let ?sect = "band_rows startRow gfxData"
  have "forLoop 0 (length ?sect) (bandRow b ?sect) cells =
          Inr (fold (\<lambda>y acc. acc @ map (band_cell b (?sect ! y) y) [0..<length (?sect ! y) div 2])
                 [0..<length ?sect] cells)"
    by (rule forLoop_total) (simp add: bandRow_closed)
  then show ?thesis
    using True by (simp add: bandLayer_def bandSlice_closed band_cells_def fold_append_each)
next
  case False
  then show ?thesis
    by (simp add: bandLayer_def bandSlice_closed band_cells_def band_rows_empty)
qed

lemma generateMapJSON_closed:
  "generateMapJSON mapData gfxData useSection3 useSection4 =
     Inr \<lparr>msVersion = ''1.0'', msDescription = ''PICO-8 map export'',
          msWidth = 128, msHeight = mapHeightOf useSection3 useSection4, msName = ''main'',
          msCells = base_cells mapData 128
                     @ (if useSection3 then band_cells 64 32 gfxData else [])
                     @ (if useSection4 then band_cells 96 48 gfxData else [])\<rparr>"
  by (simp add: generateMapJSON_def baseLayer_closed bandLayer_closed Let_def)


lemma band_cell_mem:
  assumes "y < length (band_rows startRow gfxData)"
    and "x < length (band_rows startRow gfxData ! y) div 2"
  shows "band_cell b (band_rows startRow gfxData ! y) y x \<in> set (band_cells startRow b gfxData)"
proof -
  let ?rows = "band_rows startRow gfxData"
  let ?row = "\<lambda>y. map (band_cell b (?rows ! y) y) [0..<length (?rows ! y) div 2]"
  have "band_cell b (?rows ! y) y x \<in> set (?row y)"
    using assms(2) by simp
  moreover have "?row y \<in> set (map ?row [0..<length ?rows])"
    using assms(1) by simp
  ultimately show ?thesis
    unfolding band_cells_def set_concat by blast
qed

lemma base_cell_mem:
  assumes "y < 32" and "y < length mapData" and "x < width" and "x * 2 + 1 < length (mapData ! y)"
  shows "base_cell (mapData ! y) y x \<in> set (base_cells mapData width)"
proof -
  have "base_cell (mapData ! y) y x \<in> set (base_row_cells mapData width y)"
    using assms by (simp add: base_row_cells_def)
  moreover have "y \<in> set [0..<32]"
    using assms by simp
  ultimately show ?thesis
    unfolding base_cells_def set_concat set_map by blast
qed

text \<open>
  Claim C1. For every active dual-purpose band (section 3: start row 64, base row 32;
  section 4: start row 96, base row 48) and every row \<open>y\<close> of the lines extracted for it,
  the two hex digits at positions \<open>x*2\<close> and \<open>x*2+1\<close> are decoded as (tileCol, tileRow),
  the tile ID is \<open>tileRow*16 + tileCol\<close>, and \<^verbatim>\<open>generateMapJSON\<close> emits the cell at column
  \<open>x\<close>, row \<open>bandBaseRow + y/2\<close> when \<open>y\<close> is even, and at column \<open>64+x\<close>, row
  \<open>bandBaseRow + (y-1)/2\<close> when \<open>y\<close> is odd.
\<close>

theorem dual_purpose_cell_mapping:
  assumes "(useSection3 \<and> startRow = 64 \<and> bandBaseRow = 32) \<or>
           (useSection4 \<and> startRow = 96 \<and> bandBaseRow = 48)"
    and "bandSlice startRow gfxData = Inr (Some sectionData)"
    and "y < length sectionData"
    and "x < length (sectionData ! y) div 2"
  shows "\<exists>ms. generateMapJSON mapData gfxData useSection3 useSection4 = Inr ms \<and>
           (let tileCol = parseHexChar (rune (sectionData ! y ! (x * 2)));
                tileRow = parseHexChar (rune (sectionData ! y ! (x * 2 + 1)));
                tileID = tileRow * 16 + tileCol
            in (if even y
                then \<lparr>cellX = int x, cellY = bandBaseRow + int (y div 2), cellSprite = tileID\<rparr>
                else \<lparr>cellX = 64 + int x, cellY = bandBaseRow + int ((y - 1) div 2),
                      cellSprite = tileID\<rparr>) \<in> set (msCells ms))"
proof -
  have sect: "sectionData = band_rows startRow gfxData"
    using assms(2) by (simp add: bandSlice_closed split: if_splits)
  have mem: "band_cell bandBaseRow (sectionData ! y) y x \<in> set (band_cells startRow bandBaseRow gfxData)"
    using assms(3,4) unfolding sect by (rule band_cell_mem)
  have cell: "band_cell bandBaseRow (sectionData ! y) y x =
                (if even y
                 then \<lparr>cellX = int x, cellY = bandBaseRow + int (y div 2),
                       cellSprite = parseHexChar (rune (sectionData ! y ! (x * 2 + 1))) * 16
                                    + parseHexChar (rune (sectionData ! y ! (x * 2)))\<rparr>
                 else \<lparr>cellX = 64 + int x, cellY = bandBaseRow + int ((y - 1) div 2),
                       cellSprite = parseHexChar (rune (sectionData ! y ! (x * 2 + 1))) * 16
                                    + parseHexChar (rune (sectionData ! y ! (x * 2)))\<rparr>)"
    by (simp add: band_cell_def)
  define ms where "ms = \<lparr>msVersion = ''1.0'', msDescription = ''PICO-8 map export'',
          msWidth = 128, msHeight = mapHeightOf useSection3 useSection4, msName = ''main'',
          msCells = base_cells mapData 128
                     @ (if useSection3 then band_cells 64 32 gfxData else [])
                     @ (if useSection4 then band_cells 96 48 gfxData else [])\<rparr>"
  have gen: "generateMapJSON mapData gfxData useSection3 useSection4 = Inr ms"
    unfolding ms_def by (rule generateMapJSON_closed)
  have "band_cell bandBaseRow (sectionData ! y) y x \<in> set (msCells ms)"
    using assms(1) mem by (auto simp add: ms_def)
  then have goal: "(if even y
                 then \<lparr>cellX = int x, cellY = bandBaseRow + int (y div 2),
                       cellSprite = parseHexChar (rune (sectionData ! y ! (x * 2 + 1))) * 16
                                    + parseHexChar (rune (sectionData ! y ! (x * 2)))\<rparr>
                 else \<lparr>cellX = 64 + int x, cellY = bandBaseRow + int ((y - 1) div 2),
                       cellSprite = parseHexChar (rune (sectionData ! y ! (x * 2 + 1))) * 16
                                    + parseHexChar (rune (sectionData ! y ! (x * 2)))\<rparr>)
                \<in> set (msCells ms)"
    by (simp only: cell)
  show ?thesis
    unfolding Let_def by (intro exI conjI) (rule gen, rule goal)
qed

text \<open>
  An instance of the previous theorem at a concrete input: section 3 of a graphics section whose rows 64 and 65 are
  \<^verbatim>\<open>12\<close> and \<^verbatim>\<open>3a\<close>; the odd band row 1 gives the cell at column 64, row 32, with tile ID
  \<open>10*16 + 3 = 163\<close>.
\<close>

theorem dual_purpose_cell_mapping_witness:
  "\<exists>ms. generateMapJSON [] (replicate 64 [] @ [''12'', ''3a'']) True False = Inr ms \<and>
        \<lparr>cellX = 64, cellY = 32, cellSprite = 163\<rparr> \<in> set (msCells ms)"
proof -
  have slice: "bandSlice 64 (replicate 64 [] @ [''12'', ''3a'']) = Inr (Some [''12'', ''3a''])"
    by code_simp
  have "(True \<and> (64::nat) = 64 \<and> (32::int) = 32) \<or> (False \<and> (64::nat) = 96 \<and> (32::int) = 48)"
    by simp
  from dual_purpose_cell_mapping [OF this slice, of 1 0 "[]"]
  show ?thesis
    by (simp add: Let_def parseHexChar_def rune_def)
qed

text \<open>
  Claim C2. For every base tilemap row \<open>y\<close> in 0..31 and every column \<open>x\<close> whose two hex
  digits are present in the line, \<^verbatim>\<open>generateMapJSON\<close> decodes the first digit as the sprite
  row and the second as the sprite column and emits the cell \<open>{x, y, row*16 + column}\<close>;
  the tile pair \<^verbatim>\<open>12\<close> gives sprite 18.
\<close>

theorem base_cell_mapping:
  assumes "y < 32" and "y < length mapData" and "x < 128"
    and "x * 2 + 1 < length (mapData ! y)"
  shows "\<exists>ms. generateMapJSON mapData gfxData useSection3 useSection4 = Inr ms \<and>
           (let spriteRow = parseHexChar (rune (mapData ! y ! (x * 2)));
                spriteCol = parseHexChar (rune (mapData ! y ! (x * 2 + 1)))
            in \<lparr>cellX = int x, cellY = int y, cellSprite = spriteRow * 16 + spriteCol\<rparr>
                 \<in> set (msCells ms)) \<and>
           (mapData ! y ! (x * 2) = CHR ''1'' \<and> mapData ! y ! (x * 2 + 1) = CHR ''2'' \<longrightarrow>
              \<lparr>cellX = int x, cellY = int y, cellSprite = 18\<rparr> \<in> set (msCells ms))"
proof -
  have mem: "base_cell (mapData ! y) y x \<in> set (base_cells mapData 128)"
    using assms by (rule base_cell_mem)
  have "parseHexChar (rune (CHR ''1'')) * 16 + parseHexChar (rune (CHR ''2'')) = 18"
    by (simp add: parseHexChar_def rune_def)
  with mem show ?thesis
    by (auto simp add: generateMapJSON_closed Let_def base_cell_def)
qed

text \<open>
  An instance of the previous theorem at a concrete input: the tile pair \<^verbatim>\<open>12\<close> at map position (0,0) produces the
  cell \<open>{x:0, y:0, sprite:18}\<close>.
\<close>

theorem base_cell_mapping_witness:
  "\<exists>ms. generateMapJSON [''12''] [] False False = Inr ms \<and>
        \<lparr>cellX = 0, cellY = 0, cellSprite = 18\<rparr> \<in> set (msCells ms)"
  using base_cell_mapping [of 0 "[''12'']" 0 "[]" False False]
  by auto

text \<open>
  Claim C4 as stated fails when section 4 is the only active band: exactly one band is
  active, and the height is 64, not 48.
\<close>

theorem map_height_one_band_counterexample:
  "map_sum id msWidth (generateMapJSON [] [] False True) = Inr 128 \<and>
   map_sum id msHeight (generateMapJSON [] [] False True) = Inr 64 \<and>
   map_sum id msHeight (generateMapJSON [] [] False True) \<noteq> Inr 48"
  by (simp add: generateMapJSON_closed mapHeightOf_def)

text \<open>
  Claim C4, amended. For every option setting the map descriptor's width is 128; its height
  is 32 when no band is active, 48 when only section 3 is active, and 64 whenever section 4
  is active (alone or together with section 3).
\<close>

theorem map_dimensions:
  "\<exists>ms. generateMapJSON mapData gfxData useSection3 useSection4 = Inr ms \<and>
        msWidth ms = 128 \<and>
        msHeight ms = (if useSection4 then 64 else if useSection3 then 48 else 32)"
  by (simp add: generateMapJSON_closed mapHeightOf_def)

text \<open>
  Claim C9. The historical variant's section-count rule (2 when either band is active, 4
  otherwise) and the canonical variant's rule (2 when both are active, 3 when exactly one
  is, 4 when neither is) disagree exactly when exactly one of the two options is active;
  there the historical rule yields 2 and the canonical rule 3.
\<close>

theorem section_count_rules_disagree:
  "(sectionCount_historical useSection3 useSection4 \<noteq> sectionCount useSection3 useSection4)
     = (useSection3 \<noteq> useSection4) \<and>
   (useSection3 \<noteq> useSection4 \<longrightarrow>
      sectionCount_historical useSection3 useSection4 = 2 \<and>
      sectionCount useSection3 useSection4 = 3) \<and>
   sectionCount_historical useSection3 useSection4 = (if useSection3 \<or> useSection4 then 2 else 4) \<and>
   sectionCount useSection3 useSection4 =
     (if useSection3 \<and> useSection4 then 2 else if useSection3 \<or> useSection4 then 3 else 4)"
  by (auto simp add: sectionCount_def sectionCount_historical_def)

text \<open>
  An instance of the previous theorem at a concrete input: only section 3 active.
\<close>

theorem section_count_rules_disagree_witness:
  "sectionCount_historical True False \<noteq> sectionCount True False \<and>
   sectionCount_historical True False = 2 \<and> sectionCount True False = 3"
  using section_count_rules_disagree [of True False] by simp

section \<open>Bounds of the emitted cells\<close>

lemma base_cells_bounds:
  assumes "c \<in> set (base_cells mapData width)"
  shows "0 \<le> cellX c \<and> cellX c < int width \<and> 0 \<le> cellY c \<and> cellY c \<le> 31"
proof -
  from assms obtain y where y: "y < 32" and c: "c \<in> set (base_row_cells mapData width y)"
    by (auto simp add: base_cells_def)
  from c obtain x where "x < width" and "c = base_cell (mapData ! y) y x"
    by (auto simp add: base_row_cells_def split: if_splits)
  with y show ?thesis
    by (simp add: base_cell_def)
qed

lemma band_rows_subset: "set (band_rows startRow gfxData) \<subseteq> set gfxData"
  unfolding band_rows_def
  by (meson set_take_subset set_drop_subset subset_trans)

lemma band_rows_length: "length (band_rows startRow gfxData) \<le> 32"
  by (simp add: band_rows_def)

lemma band_cells_bounds:
  assumes short: "\<forall>line\<in>set gfxData. length line \<le> 128"
    and c: "c \<in> set (band_cells startRow b gfxData)"
  shows "0 \<le> cellX c \<and> cellX c \<le> 127 \<and> b \<le> cellY c \<and> cellY c \<le> b + 15"
proof -
  let ?rows = "band_rows startRow gfxData"
  from c obtain y x where y: "y < length ?rows" and x: "x < length (?rows ! y) div 2"
    and ceq: "c = band_cell b (?rows ! y) y x"
    by (auto simp add: band_cells_def)
  have "?rows ! y \<in> set gfxData"
    using y band_rows_subset nth_mem by blast
  with short have "length (?rows ! y) \<le> 128" by blast
  with x have x64: "x < 64" by simp
  have y32: "y < 32"
    using y band_rows_length [of startRow gfxData] by simp
  then have "y div 2 \<le> 15" "(y - 1) div 2 \<le> 15" by simp_all
  with x64 show ?thesis
    by (simp add: ceq band_cell_def)
qed

text \<open>
  Claim C10. When every line of the graphics section has at most 128 characters, every
  cell that \<^verbatim>\<open>generateMapJSON\<close> emits has \<open>0 \<le> x \<le> 127\<close> and \<open>0 \<le> y < height\<close> for the
  height the descriptor declares; the cells appended by the base layer lie in rows 0--31,
  those appended for section 3 in rows 32--47 and those appended for section 4 in rows
  48--63.
\<close>

theorem map_cells_in_bounds:
  assumes "\<forall>line\<in>set gfxData. length line \<le> 128"
  shows "\<exists>ms base band3 band4.
           generateMapJSON mapData gfxData useSection3 useSection4 = Inr ms \<and>
           baseLayer mapData 128 [] = Inr base \<and>
           (if useSection3 then bandLayer 64 32 gfxData base else Inr base) = Inr (base @ band3) \<and>
           (if useSection4 then bandLayer 96 48 gfxData (base @ band3) else Inr (base @ band3))
              = Inr (base @ band3 @ band4) \<and>
           msCells ms = base @ band3 @ band4 \<and>
           (\<forall>c\<in>set (msCells ms).
              0 \<le> cellX c \<and> cellX c \<le> 127 \<and> 0 \<le> cellY c \<and> cellY c < msHeight ms) \<and>
           (\<forall>c\<in>set base. 0 \<le> cellY c \<and> cellY c \<le> 31) \<and>
           (\<forall>c\<in>set band3. 32 \<le> cellY c \<and> cellY c \<le> 47) \<and>
           (\<forall>c\<in>set band4. 48 \<le> cellY c \<and> cellY c \<le> 63)"
proof -
  define base where "base = base_cells mapData 128"
  define band3 where "band3 = (if useSection3 then band_cells 64 32 gfxData else [])"
  define band4 where "band4 = (if useSection4 then band_cells 96 48 gfxData else [])"
  define ms where "ms = \<lparr>msVersion = ''1.0'', msDescription = ''PICO-8 map export'',
          msWidth = 128, msHeight = mapHeightOf useSection3 useSection4, msName = ''main'',
          msCells = base @ band3 @ band4\<rparr>"
  have gen: "generateMapJSON mapData gfxData useSection3 useSection4 = Inr ms"
    unfolding ms_def base_def band3_def band4_def by (rule generateMapJSON_closed)
  have l1: "baseLayer mapData 128 [] = Inr base"
    by (simp add: baseLayer_closed base_def)
  have l2: "(if useSection3 then bandLayer 64 32 gfxData base else Inr base) = Inr (base @ band3)"
    by (simp add: bandLayer_closed band3_def)
  have l3: "(if useSection4 then bandLayer 96 48 gfxData (base @ band3) else Inr (base @ band3))
              = Inr (base @ band3 @ band4)"
    by (simp add: bandLayer_closed band4_def)
  have cells: "msCells ms = base @ band3 @ band4"
    by (simp add: ms_def)
  have b0: "\<forall>c\<in>set base. 0 \<le> cellX c \<and> cellX c \<le> 127 \<and> 0 \<le> cellY c \<and> cellY c \<le> 31"
    using base_cells_bounds [of _ mapData 128] unfolding base_def by fastforce
  have b3: "\<forall>c\<in>set band3. 0 \<le> cellX c \<and> cellX c \<le> 127 \<and> 32 \<le> cellY c \<and> cellY c \<le> 47"
    using band_cells_bounds [OF assms, of _ 64 32] unfolding band3_def by fastforce
  have b4: "\<forall>c\<in>set band4. 0 \<le> cellX c \<and> cellX c \<le> 127 \<and> 48 \<le> cellY c \<and> cellY c \<le> 63"
    using band_cells_bounds [OF assms, of _ 96 48] unfolding band4_def by fastforce
  have h3: "band3 \<noteq> [] \<Longrightarrow> 48 \<le> msHeight ms"
    by (auto simp add: band3_def ms_def mapHeightOf_def split: if_splits)
  have h4: "band4 \<noteq> [] \<Longrightarrow> msHeight ms = 64"
    by (auto simp add: band4_def ms_def mapHeightOf_def split: if_splits)
  have h0: "32 \<le> msHeight ms"
    by (simp add: ms_def mapHeightOf_def)
  have all: "\<forall>c\<in>set (msCells ms).
              0 \<le> cellX c \<and> cellX c \<le> 127 \<and> 0 \<le> cellY c \<and> cellY c < msHeight ms"
  proof
    fix c assume "c \<in> set (msCells ms)"
    then consider "c \<in> set base" | "c \<in> set band3" | "c \<in> set band4"
      by (auto simp add: cells)
    then show "0 \<le> cellX c \<and> cellX c \<le> 127 \<and> 0 \<le> cellY c \<and> cellY c < msHeight ms"
    proof cases
      case 1
      with b0 h0 show ?thesis by fastforce
    next
      case 2
      then have "band3 \<noteq> []" by auto
      with b3 h3 2 show ?thesis by fastforce
    next
      case 3
      then have "band4 \<noteq> []" by auto
      with b4 h4 3 show ?thesis by fastforce
    qed
  qed
  show ?thesis
    using gen l1 l2 l3 cells all b0 b3 b4 by blast
qed

text \<open>
  An instance of the previous theorem at a concrete input: one base tile and two rows of
  section 3.
\<close>

theorem map_cells_in_bounds_witness:
  "\<exists>ms base band3 band4.
           generateMapJSON [''12''] (replicate 64 [] @ [''12'', ''3a'']) True False = Inr ms \<and>
           baseLayer [''12''] 128 [] = Inr base \<and>
           bandLayer 64 32 (replicate 64 [] @ [''12'', ''3a'']) base = Inr (base @ band3) \<and>
           Inr (base @ band3) = (Inr (base @ band3 @ band4) :: panic + MapCell list) \<and>
           msCells ms = base @ band3 @ band4 \<and>
           (\<forall>c\<in>set (msCells ms).
              0 \<le> cellX c \<and> cellX c \<le> 127 \<and> 0 \<le> cellY c \<and> cellY c < msHeight ms) \<and>
           (\<forall>c\<in>set base. 0 \<le> cellY c \<and> cellY c \<le> 31) \<and>
           (\<forall>c\<in>set band3. 32 \<le> cellY c \<and> cellY c \<le> 47) \<and>
           (\<forall>c\<in>set band4. 48 \<le> cellY c \<and> cellY c \<le> 63)"
proof -
  have short: "\<forall>line\<in>set (replicate 64 [] @ [''12'', ''3a'']). length line \<le> 128"
    by simp
  from map_cells_in_bounds [OF short, of "[''12'']" True False]
  show ?thesis by simp
qed

section \<open>The sprite loops compute their closed forms\<close>

lemma forLoop_invariant:
  assumes "I s"
    and "\<And>j t. i \<le> j \<Longrightarrow> j < n \<Longrightarrow> I t \<Longrightarrow> body j t = Inr (f j t) \<and> I (f j t)"
  shows "forLoop i n body s = Inr (fold f [i..<n] s) \<and> I (fold f [i..<n] s)"
  using assms
proof (induction i n body s rule: forLoop.induct)
  case (1 i n body s)
  show ?case
  proof (cases "i < n")
    case True
    have step: "body i s = Inr (f i s)" and inv: "I (f i s)"
      using "1.prems" True by simp_all
    have rest: "forLoop (Suc i) n body (f i s) = Inr (fold f [Suc i..<n] (f i s)) \<and>
                I (fold f [Suc i..<n] (f i s))"
      using "1.IH" [OF True step inv] "1.prems"(2) by simp
    show ?thesis
      using True step rest by (simp add: forLoop.simps [of i] upt_conv_Cons)
  next
    case False
    then show ?thesis using "1.prems"(1) by simp
  qed
qed

lemma store_in_range [simp]: "i < length xs \<Longrightarrow> store xs i v = Inr (xs[i := v])"
  by (simp add: store_def)

lemma pixelSet_closed:
  assumes "i < length pixels" and "j < length (pixels ! i)" and "x * 8 + j < length line"
  shows "pixelSet line x i j pixels =
           Inr (pixels[i := (pixels ! i)[j := parseHexChar (rune (line ! (x * 8 + j)))]])"
  using assms by (simp add: pixelSet_def)

lemma pixelCols_closed:
  assumes "i < length pixels" and "length (pixels ! i) = 8"
  shows "pixelCols line x i j pixels =
           Inr (pixels[i := map (\<lambda>k. if j \<le> k \<and> x * 8 + k < length line
                                       then parseHexChar (rune (line ! (x * 8 + k)))
                                       else pixels ! i ! k) [0..<8]])"
  using assms
proof (induction line x i j pixels rule: pixelCols.induct)
  case (1 line x i j pixels)
  show ?case
  proof (cases "j < 8 \<and> x * 8 + j < length line")
    case True
    let ?v = "parseHexChar (rune (line ! (x * 8 + j)))"
    let ?p = "pixels[i := (pixels ! i)[j := ?v]]"
    have step: "pixelSet line x i j pixels = Inr ?p"
      using True "1.prems" by (simp add: pixelSet_closed)
    have len: "i < length ?p" "length (?p ! i) = 8"
      using "1.prems" by simp_all
    have rest: "pixelCols line x i (Suc j) ?p =
           Inr (?p[i := map (\<lambda>k. if Suc j \<le> k \<and> x * 8 + k < length line
                                       then parseHexChar (rune (line ! (x * 8 + k)))
                                       else ?p ! i ! k) [0..<8]])"
      using "1.IH" [OF True step len] .
    have rows: "map (\<lambda>k. if Suc j \<le> k \<and> x * 8 + k < length line
                          then parseHexChar (rune (line ! (x * 8 + k)))
                          else ?p ! i ! k) [0..<8]
              = map (\<lambda>k. if j \<le> k \<and> x * 8 + k < length line
                          then parseHexChar (rune (line ! (x * 8 + k)))
                          else pixels ! i ! k) [0..<8]"
    proof (rule map_cong [OF refl])
      fix k assume "k \<in> set [0..<8]"
      then have k: "k < 8" by simp
      show "(if Suc j \<le> k \<and> x * 8 + k < length line
             then parseHexChar (rune (line ! (x * 8 + k))) else ?p ! i ! k)
          = (if j \<le> k \<and> x * 8 + k < length line
             then parseHexChar (rune (line ! (x * 8 + k))) else pixels ! i ! k)"
        using True k "1.prems" by (cases "k = j") (auto simp add: nth_list_update)
    qed
    show ?thesis
      using True step rest rows by (simp add: pixelCols.simps [of line x i j])
  next
    case False
    have "map (\<lambda>k. if j \<le> k \<and> x * 8 + k < length line
                    then parseHexChar (rune (line ! (x * 8 + k)))
                    else pixels ! i ! k) [0..<8] = map (\<lambda>k. pixels ! i ! k) [0..<8]"
      using False by (intro map_cong [OF refl]) auto
    also have "\<dots> = pixels ! i"
      using "1.prems"(2) by (metis map_nth)
    finally have row: "map (\<lambda>k. if j \<le> k \<and> x * 8 + k < length line
                    then parseHexChar (rune (line ! (x * 8 + k)))
                    else pixels ! i ! k) [0..<8] = pixels ! i" .
    have "pixelCols line x i j pixels = Inr pixels"
      using False by (subst pixelCols.simps) auto
    then show ?thesis
      by (simp only: row list_update_id)
  qed
qed

lemma pixelRow_closed:
  assumes "i < length pixels"
  shows "pixelRow gfxData x y i pixels = Inr (pixels[i := pixel_row gfxData x y i])"
proof (cases "y * 8 + i < length gfxData")
  case True
  let ?p = "pixels[i := replicate 8 0]"
  have "pixelCols (gfxData ! (y * 8 + i)) x i 0 ?p =
          Inr (?p[i := map (\<lambda>k. if 0 \<le> k \<and> x * 8 + k < length (gfxData ! (y * 8 + i))
                                   then parseHexChar (rune (gfxData ! (y * 8 + i) ! (x * 8 + k)))
                                   else ?p ! i ! k) [0..<8]])"
    using assms by (intro pixelCols_closed) simp_all
  moreover have "map (\<lambda>k. if 0 \<le> k \<and> x * 8 + k < length (gfxData ! (y * 8 + i))
                                   then parseHexChar (rune (gfxData ! (y * 8 + i) ! (x * 8 + k)))
                                   else ?p ! i ! k) [0..<8] = pixel_row gfxData x y i"
    unfolding pixel_row_def using True assms
    by (intro map_cong [OF refl]) (simp add: pixel_at_def)
  ultimately show ?thesis
    using True assms by (simp add: pixelRow_def)
next
  case False
  have "pixel_row gfxData x y i = replicate 8 0"
    using False by (simp add: pixel_row_def pixel_at_def map_replicate_const)
  then show ?thesis
    using False assms by (simp add: pixelRow_def)
qed

lemma fold_update_each:
  "n \<le> length p \<Longrightarrow> fold (\<lambda>i p. p[i := g i]) [0..<n] p = map g [0..<n] @ drop n p"
proof (induction n)
  case 0
  then show ?case by simp
next
  case (Suc n)
  then have "fold (\<lambda>i p. p[i := g i]) [0..<Suc n] p = (map g [0..<n] @ drop n p)[n := g n]"
    by simp
  also have "\<dots> = map g [0..<n] @ (drop n p)[0 := g n]"
    by (simp add: list_update_append)
  also have "(drop n p)[0 := g n] = g n # drop (Suc n) p"
  proof -
    have "drop n p = p ! n # drop (Suc n) p"
      using Suc.prems by (simp add: Cons_nth_drop_Suc)
    then show ?thesis by simp
  qed
  finally show ?case by simp
qed

lemma pixelGrid_closed: "pixelGrid gfxData x y = Inr (pixel_grid gfxData x y)"
proof -
  have "forLoop 0 8 (pixelRow gfxData x y) (replicate 8 [])
          = Inr (fold (\<lambda>i p. p[i := pixel_row gfxData x y i]) [0..<8] (replicate 8 []))
        \<and> length (fold (\<lambda>i p. p[i := pixel_row gfxData x y i]) [0..<8] (replicate 8 [])) = 8"
    by (rule forLoop_invariant [where I = "\<lambda>p. length p = 8"]) (simp_all add: pixelRow_closed)
  moreover have "fold (\<lambda>i p. p[i := pixel_row gfxData x y i]) [0..<8] (replicate 8 [])
                   = map (pixel_row gfxData x y) [0..<8]"
    using fold_update_each [of 8 "replicate 8 []" "pixel_row gfxData x y"] by simp
  ultimately show ?thesis
    by (simp add: pixelGrid_def pixel_grid_def)
qed

lemma usedInRow_iff: "usedInRow row used = (used \<or> (\<exists>pixel\<in>set row. pixel \<noteq> 0))"
  by (induction row) auto

lemma usedInRows_iff:
  "usedInRows rows used = (used \<or> (\<exists>row\<in>set rows. \<exists>pixel\<in>set row. pixel \<noteq> 0))"
  by (induction rows arbitrary: used) (auto simp add: usedInRow_iff Let_def)

lemma spriteStep_closed:
  assumes "n < length flagData"
  shows "spriteStep gfxData flagData useSection3 useSection4 n sprites =
           Inr (sprites @ (if sprite_skipped useSection3 useSection4 n then []
                           else [sprite_of gfxData flagData n]))"
  using assms
  by (simp add: spriteStep_def sprite_skipped_def sprite_of_def pixelGrid_closed Let_def)

lemma sprite_loop_closed:
  assumes "256 \<le> length flagData"
  shows "forLoop 0 256 (spriteStep gfxData flagData useSection3 useSection4) [] =
           Inr (map (sprite_of gfxData flagData)
                  (filter (\<lambda>n. \<not> sprite_skipped useSection3 useSection4 n) [0..<256]))"
proof -
  have "forLoop 0 256 (spriteStep gfxData flagData useSection3 useSection4) [] =
          Inr (fold (\<lambda>n acc. acc @ (if \<not> sprite_skipped useSection3 useSection4 n
                                     then [sprite_of gfxData flagData n] else [])) [0..<256] [])"
    using assms by (intro forLoop_total) (simp add: spriteStep_closed)
  then show ?thesis
    by (simp only: fold_append_filter append_Nil)
qed

lemma generateSpriteSheetJSON_closed:
  assumes "length flagData = 256"
  shows "generateSpriteSheetJSON gfxData flagData useSection3 useSection4 =
           Inr \<lparr>sheetVersion = ''1.0'', sheetDescription = ''PICO-8 spritesheet export'',
                sheetSprites = map (sprite_of gfxData flagData)
                  (filter (\<lambda>n. \<not> sprite_skipped useSection3 useSection4 n) [0..<256]),
                sheetMetadata =
                  \<lparr>metaSpriteWidth = 8, metaSpriteHeight = 8,
                   metaGridWidth = 16, metaGridHeight = 16,
                   metaAvailableSprites = availableSprites useSection3 useSection4,
                   metaPalette = map (\<lambda>col. \<lparr>paletteR = colR col, paletteG = colG col,
                                paletteB = colB col, paletteA = colA col\<rparr>) pico8Palette\<rparr>\<rparr>"
proof -
  have "256 \<le> length flagData" using assms by simp
  then have "forLoop 0 256 (spriteStep gfxData flagData useSection3 useSection4) [] =
           Inr (map (sprite_of gfxData flagData)
                  (filter (\<lambda>n. \<not> sprite_skipped useSection3 useSection4 n) [0..<256]))"
    by (rule sprite_loop_closed)
  then show ?thesis
    unfolding generateSpriteSheetJSON_def Let_def by (simp only: bind_res_Inr)
qed

lemma pixel_grid_shape:
  "length (pixel_grid gfxData x y) = 8"
  "i < 8 \<Longrightarrow> length (pixel_grid gfxData x y ! i) = 8"
  by (simp_all add: pixel_grid_def pixel_row_def)

lemma grid_nonzero_iff:
  assumes "length rows = 8" and "\<And>i. i < 8 \<Longrightarrow> length (rows ! i) = 8"
  shows "(\<exists>row\<in>set rows. \<exists>pixel\<in>set row. pixel \<noteq> (0::int)) = (\<exists>i<8. \<exists>j<8. rows ! i ! j \<noteq> 0)"
proof
  assume "\<exists>row\<in>set rows. \<exists>pixel\<in>set row. pixel \<noteq> 0"
  then obtain row pixel where "row \<in> set rows" "pixel \<in> set row" "pixel \<noteq> 0" by blast
  then obtain i j where "i < length rows" "row = rows ! i" "j < length row" "pixel = row ! j"
    by (metis in_set_conv_nth)
  with assms \<open>pixel \<noteq> 0\<close> show "\<exists>i<8. \<exists>j<8. rows ! i ! j \<noteq> 0" by auto
next
  assume "\<exists>i<8. \<exists>j<8. rows ! i ! j \<noteq> 0"
  then obtain i j where ij: "i < 8" "j < 8" "rows ! i ! j \<noteq> 0" by blast
  then have "rows ! i \<in> set rows" "rows ! i ! j \<in> set (rows ! i)"
    using assms by simp_all
  with ij show "\<exists>row\<in>set rows. \<exists>pixel\<in>set row. pixel \<noteq> 0" by blast
qed

text \<open>
  Claim C7. Every sprite record that \<^verbatim>\<open>generateSpriteSheetJSON\<close> emits carries an 8\<times>8 pixel
  grid, and its \<^verbatim>\<open>used\<close> flag is true if and only if at least one of the 64 pixel indices
  of the grid is non-zero; a sprite whose grid is all zero has \<^verbatim>\<open>used = false\<close>.
\<close>

theorem used_flag_iff_nonzero_pixel:
  assumes "length flagData = 256"
  shows "\<exists>sheet. generateSpriteSheetJSON gfxData flagData useSection3 useSection4 = Inr sheet \<and>
           (\<forall>s\<in>set (sheetSprites sheet).
              length (sprPixels s) = 8 \<and>
              (\<forall>i<8. length (sprPixels s ! i) = 8) \<and>
              sprUsed s = (\<exists>i<8. \<exists>j<8. sprPixels s ! i ! j \<noteq> 0) \<and>
              ((\<forall>i<8. \<forall>j<8. sprPixels s ! i ! j = 0) \<longrightarrow> \<not> sprUsed s))"
proof -
  have each: "length (sprPixels s) = 8 \<and>
              (\<forall>i<8. length (sprPixels s ! i) = 8) \<and>
              sprUsed s = (\<exists>i<8. \<exists>j<8. sprPixels s ! i ! j \<noteq> 0) \<and>
              ((\<forall>i<8. \<forall>j<8. sprPixels s ! i ! j = 0) \<longrightarrow> \<not> sprUsed s)"
    if "s = sprite_of gfxData flagData n" for s n
  proof -
    let ?g = "pixel_grid gfxData (n mod 16) (n div 16)"
    have px: "sprPixels s = ?g" and us: "sprUsed s = usedInRows ?g False"
      using that by (simp_all add: sprite_of_def)
    have iff: "usedInRows ?g False = (\<exists>i<8. \<exists>j<8. ?g ! i ! j \<noteq> 0)"
      by (simp only: usedInRows_iff simp_thms grid_nonzero_iff [OF pixel_grid_shape])
    show ?thesis
      unfolding px us iff by (simp add: pixel_grid_shape)
  qed
  define sheet where "sheet = \<lparr>sheetVersion = ''1.0'', sheetDescription = ''PICO-8 spritesheet export'',
                sheetSprites = map (sprite_of gfxData flagData)
                  (filter (\<lambda>n. \<not> sprite_skipped useSection3 useSection4 n) [0..<256]),
                sheetMetadata =
                  \<lparr>metaSpriteWidth = 8, metaSpriteHeight = 8,
                   metaGridWidth = 16, metaGridHeight = 16,
                   metaAvailableSprites = availableSprites useSection3 useSection4,
                   metaPalette = map (\<lambda>col. \<lparr>paletteR = colR col, paletteG = colG col,
                                paletteB = colB col, paletteA = colA col\<rparr>) pico8Palette\<rparr>\<rparr>"
  have gen: "generateSpriteSheetJSON gfxData flagData useSection3 useSection4 = Inr sheet"
    unfolding sheet_def by (rule generateSpriteSheetJSON_closed [OF assms])
  have sprites: "sheetSprites sheet = map (sprite_of gfxData flagData)
                  (filter (\<lambda>n. \<not> sprite_skipped useSection3 useSection4 n) [0..<256])"
    unfolding sheet_def by (simp only: SpriteSheet.simps)
  have "\<forall>s\<in>set (sheetSprites sheet).
              length (sprPixels s) = 8 \<and>
              (\<forall>i<8. length (sprPixels s ! i) = 8) \<and>
              sprUsed s = (\<exists>i<8. \<exists>j<8. sprPixels s ! i ! j \<noteq> 0) \<and>
              ((\<forall>i<8. \<forall>j<8. sprPixels s ! i ! j = 0) \<longrightarrow> \<not> sprUsed s)"
  proof
    fix s assume "s \<in> set (sheetSprites sheet)"
    then obtain n where "s = sprite_of gfxData flagData n"
      unfolding sprites set_map by blast
    then show "length (sprPixels s) = 8 \<and>
              (\<forall>i<8. length (sprPixels s ! i) = 8) \<and>
              sprUsed s = (\<exists>i<8. \<exists>j<8. sprPixels s ! i ! j \<noteq> 0) \<and>
              ((\<forall>i<8. \<forall>j<8. sprPixels s ! i ! j = 0) \<longrightarrow> \<not> sprUsed s)"
      by (rule each)
  qed
  with gen show ?thesis by blast
qed

text \<open>
  An instance of the previous theorem at a concrete input: a two-line graphics section
  with a single non-zero pixel and an all-zero flag table.
\<close>

theorem used_flag_iff_nonzero_pixel_witness:
  "\<exists>sheet. generateSpriteSheetJSON [''00000000'', ''00070000''] (replicate 256 0) False False = Inr sheet \<and>
           (\<forall>s\<in>set (sheetSprites sheet).
              length (sprPixels s) = 8 \<and>
              (\<forall>i<8. length (sprPixels s ! i) = 8) \<and>
              sprUsed s = (\<exists>i<8. \<exists>j<8. sprPixels s ! i ! j \<noteq> 0) \<and>
              ((\<forall>i<8. \<forall>j<8. sprPixels s ! i ! j = 0) \<longrightarrow> \<not> sprUsed s))"
proof -
  have len: "length (replicate 256 (0::int)) = 256" by simp
  show ?thesis
    by (rule used_flag_iff_nonzero_pixel [OF len])
qed

lemma availableSprites_cases:
  "availRanges (availableSprites False False) =
     [\<lparr>rangeStart = 0, rangeEnd = 127, rangeUsed = True, rangeDescription = ''Base sprites''\<rparr>,
      \<lparr>rangeStart = 128, rangeEnd = 191, rangeUsed = True, rangeDescription = ''Section 3 sprites''\<rparr>,
      \<lparr>rangeStart = 192, rangeEnd = 255, rangeUsed = True, rangeDescription = ''Section 4 sprites''\<rparr>]"
  "availRanges (availableSprites True False) =
     [\<lparr>rangeStart = 0, rangeEnd = 127, rangeUsed = True, rangeDescription = ''Base sprites''\<rparr>,
      \<lparr>rangeStart = 192, rangeEnd = 255, rangeUsed = True, rangeDescription = ''Section 4 sprites''\<rparr>]"
  "availRanges (availableSprites False True) =
     [\<lparr>rangeStart = 0, rangeEnd = 127, rangeUsed = True, rangeDescription = ''Base sprites''\<rparr>,
      \<lparr>rangeStart = 128, rangeEnd = 191, rangeUsed = True, rangeDescription = ''Section 3 sprites''\<rparr>]"
  "availRanges (availableSprites True True) =
     [\<lparr>rangeStart = 0, rangeEnd = 127, rangeUsed = True, rangeDescription = ''Base sprites''\<rparr>]"
  "availTotal (availableSprites False False) = 256"
  "availTotal (availableSprites True False) = 192"
  "availTotal (availableSprites False True) = 192"
  "availTotal (availableSprites True True) = 128"
  by (simp_all add: availableSprites_def baseAvailableSprites_def addAvailableRange_def)

lemma card_two_intervals:
  "card ({0..127} \<union> {192..255::int}) = 192"
  "card ({0..127} \<union> {128..191::int}) = 192"
  "card ({0..127} \<union> ({128..191} \<union> {192..255::int})) = 256"
proof -
  show "card ({0..127} \<union> {192..255::int}) = 192"
    by (subst card_Un_disjoint) auto
  show "card ({0..127} \<union> {128..191::int}) = 192"
    by (subst card_Un_disjoint) auto
  have "{0..127} \<union> ({128..191} \<union> {192..255::int}) = {0..255}" by auto
  then show "card ({0..127} \<union> ({128..191} \<union> {192..255::int})) = 256" by simp
qed

lemma available_ranges_facts:
  fixes useSection3 useSection4
  defines "av \<equiv> availableSprites useSection3 useSection4"
  shows "(\<Union>r\<in>set (availRanges av). range_ids r) =
             {0..255} - (if useSection3 then {128..191} else {})
                      - (if useSection4 then {192..255} else {})"
    and "\<forall>i<length (availRanges av). \<forall>j<length (availRanges av).
             i \<noteq> j \<longrightarrow> range_ids (availRanges av ! i) \<inter> range_ids (availRanges av ! j) = {}"
    and "availTotal av = int (card (\<Union>r\<in>set (availRanges av). range_ids r))"
proof -
  show "(\<Union>r\<in>set (availRanges av). range_ids r) =
             {0..255} - (if useSection3 then {128..191} else {})
                      - (if useSection4 then {192..255} else {})"
    unfolding av_def
    by (cases useSection3; cases useSection4) (auto simp add: availableSprites_cases range_ids_def)
  show "\<forall>i<length (availRanges av). \<forall>j<length (availRanges av).
             i \<noteq> j \<longrightarrow> range_ids (availRanges av ! i) \<inter> range_ids (availRanges av ! j) = {}"
    unfolding av_def
    by (cases useSection3; cases useSection4)
       (auto simp add: availableSprites_cases range_ids_def less_Suc_eq nth_Cons')
  show "availTotal av = int (card (\<Union>r\<in>set (availRanges av). range_ids r))"
    unfolding av_def
    by (cases useSection3; cases useSection4)
       (simp_all add: availableSprites_cases range_ids_def card_two_intervals)
qed

text \<open>
  Claim C3. For every combination of the two band options, the union of the emitted
  available ranges is \<open>{0..255}\<close> minus the ID intervals of the active dual-purpose bands,
  the ranges are pairwise disjoint, and the reported total is the number of covered IDs;
  with only band 3 active the range list is \<open>[{0,127},{192,255}]\<close> and the total is 192.
\<close>

theorem available_ranges_complete:
  assumes "length flagData = 256"
  shows "\<exists>sheet. generateSpriteSheetJSON gfxData flagData useSection3 useSection4 = Inr sheet \<and>
           (let av = metaAvailableSprites (sheetMetadata sheet);
                rs = availRanges av;
                covered = (\<Union>r\<in>set rs. {rangeStart r..rangeEnd r})
            in covered = {0..255} - (if useSection3 then {128..191} else {})
                                  - (if useSection4 then {192..255} else {}) \<and>
               (\<forall>i<length rs. \<forall>j<length rs. i \<noteq> j \<longrightarrow>
                  {rangeStart (rs ! i)..rangeEnd (rs ! i)} \<inter> {rangeStart (rs ! j)..rangeEnd (rs ! j)} = {}) \<and>
               availTotal av = int (card covered) \<and>
               (useSection3 \<and> \<not> useSection4 \<longrightarrow>
                  map (\<lambda>r. (rangeStart r, rangeEnd r)) rs = [(0, 127), (192, 255)] \<and>
                  availTotal av = 192))"
proof -
  define sheet where "sheet = \<lparr>sheetVersion = ''1.0'', sheetDescription = ''PICO-8 spritesheet export'',
                sheetSprites = map (sprite_of gfxData flagData)
                  (filter (\<lambda>n. \<not> sprite_skipped useSection3 useSection4 n) [0..<256]),
                sheetMetadata =
                  \<lparr>metaSpriteWidth = 8, metaSpriteHeight = 8,
                   metaGridWidth = 16, metaGridHeight = 16,
                   metaAvailableSprites = availableSprites useSection3 useSection4,
                   metaPalette = map (\<lambda>col. \<lparr>paletteR = colR col, paletteG = colG col,
                                paletteB = colB col, paletteA = colA col\<rparr>) pico8Palette\<rparr>\<rparr>"
  have gen: "generateSpriteSheetJSON gfxData flagData useSection3 useSection4 = Inr sheet"
    unfolding sheet_def by (rule generateSpriteSheetJSON_closed [OF assms])
  have av: "metaAvailableSprites (sheetMetadata sheet) = availableSprites useSection3 useSection4"
    unfolding sheet_def by (simp only: SpriteSheet.simps MetaData.simps)
  have only3: "useSection3 \<and> \<not> useSection4 \<longrightarrow>
          map (\<lambda>r. (rangeStart r, rangeEnd r)) (availRanges (availableSprites useSection3 useSection4))
             = [(0, 127), (192, 255)] \<and>
          availTotal (availableSprites useSection3 useSection4) = 192"
    by (auto simp add: availableSprites_cases)
  show ?thesis
    unfolding Let_def
    using gen available_ranges_facts [of useSection3 useSection4, unfolded range_ids_def] only3
    by (intro exI [of _ sheet] conjI) (simp_all only: av)
qed

text \<open>
  An instance of the previous theorem at a concrete input: only band 3 active.
\<close>

theorem available_ranges_complete_witness:
  "\<exists>sheet. generateSpriteSheetJSON [] (replicate 256 0) True False = Inr sheet \<and>
      map (\<lambda>r. (rangeStart r, rangeEnd r)) (availRanges (metaAvailableSprites (sheetMetadata sheet)))
         = [(0, 127), (192, 255)] \<and>
      availTotal (metaAvailableSprites (sheetMetadata sheet)) = 192 \<and>
      (\<Union>r\<in>set (availRanges (metaAvailableSprites (sheetMetadata sheet))). {rangeStart r..rangeEnd r})
         = {0..255} - {128..191}"
proof -
  have len: "length (replicate 256 (0::int)) = 256" by simp
  from available_ranges_complete [OF len, of "[]" True False]
  show ?thesis
    unfolding Let_def by auto
qed

section \<open>Pixel loops\<close>

lemma imgSet_bounds [simp]: "imgW (imgSet d x y c) = imgW d" "imgH (imgSet d x y c) = imgH d"
  by (simp_all add: imgSet_def)

lemma inBounds_imgSet [simp]: "inBounds (imgSet d x y c) px py = inBounds d px py"
  by (simp add: inBounds_def)

lemma imgAt_imgSet:
  "imgAt (imgSet d x y c) px py = (if px = x \<and> py = y \<and> inBounds d x y then c else imgAt d px py)"
  by (auto simp add: imgAt_def imgSet_def inBounds_def)

lemma fold_keeps:
  assumes "\<And>x s. g (f x s) = g s"
  shows "g (fold f xs s) = g s"
  by (induction xs arbitrary: s) (simp_all add: assms)

lemma row_fill_bounds:
  "inBounds (fold (\<lambda>xx d. imgSet d (x0 + int xx) y (c xx)) xs d) qx qy = inBounds d qx qy"
  by (rule fold_keeps [where g = "\<lambda>d. inBounds d qx qy"]) simp

lemma row_fill:
  "imgAt (fold (\<lambda>xx d. imgSet d (x0 + int xx) y (c xx)) [0..<w] d) px py =
     (if py = y \<and> x0 \<le> px \<and> px < x0 + int w \<and> inBounds d px py then c (nat (px - x0))
      else imgAt d px py)"
proof (induction w)
  case 0
  show ?case by auto
next
  case (Suc w)
  show ?case
  proof (cases "px = x0 + int w")
    case True
    then show ?thesis
      using Suc by (auto simp add: imgAt_imgSet row_fill_bounds)
  next
    case False
    then have "(px < x0 + int (Suc w)) = (px < x0 + int w)" by auto
    with False show ?thesis
      using Suc by (simp add: imgAt_imgSet row_fill_bounds)
  qed
qed

lemma block_fill_bounds [simp]:
  "inBounds (setBlock w h x0 y0 c d) qx qy = inBounds d qx qy"
  unfolding setBlock_def
  by (rule fold_keeps [where g = "\<lambda>d. inBounds d qx qy"]) (rule row_fill_bounds)

lemma block_fill:
  "imgAt (setBlock w h x0 y0 c d) px py =
     (if x0 \<le> px \<and> px < x0 + int w \<and> y0 \<le> py \<and> py < y0 + int h \<and> inBounds d px py
      then c (nat (px - x0)) (nat (py - y0)) else imgAt d px py)"
proof (induction h)
  case 0
  show ?case by (auto simp add: setBlock_def)
next
  case (Suc h)
  have step: "setBlock w (Suc h) x0 y0 c d =
          fold (\<lambda>xx d. imgSet d (x0 + int xx) (y0 + int h) (c xx h)) [0..<w] (setBlock w h x0 y0 c d)"
    by (simp add: setBlock_def)
  show ?case
  proof (cases "py = y0 + int h")
    case True
    then show ?thesis
      unfolding step row_fill Suc by auto
  next
    case False
    then have "(py < y0 + int (Suc h)) = (py < y0 + int h)" by auto
    with False show ?thesis
      unfolding step row_fill Suc by simp
  qed
qed

lemma setBlock_size [simp]:
  "imgW (setBlock w h x0 y0 c d) = imgW d" "imgH (setBlock w h x0 y0 c d) = imgH d"
proof -
  have w1: "imgW (fold (\<lambda>xx d. imgSet d (x0 + int xx) y (g xx)) xs d) = imgW d" for y g xs d
    by (rule fold_keeps) simp
  have h1: "imgH (fold (\<lambda>xx d. imgSet d (x0 + int xx) y (g xx)) xs d) = imgH d" for y g xs d
    by (rule fold_keeps) simp
  show "imgW (setBlock w h x0 y0 c d) = imgW d"
    unfolding setBlock_def by (rule fold_keeps) (rule w1)
  show "imgH (setBlock w h x0 y0 c d) = imgH d"
    unfolding setBlock_def by (rule fold_keeps) (rule h1)
qed

section \<open>Rendering never panics\<close>

lemma forLoop_succeeds:
  assumes "\<And>j t. i \<le> j \<Longrightarrow> j < n \<Longrightarrow> \<exists>t'. body j t = Inr t'"
  shows "\<exists>s'. forLoop i n body s = Inr s'"
  using assms
proof (induction i n body s rule: forLoop.induct)
  case (1 i n body s)
  show ?case
  proof (cases "i < n")
    case True
    then obtain t where step: "body i s = Inr t"
      using "1.prems" [of i s] by auto
    have "\<exists>s'. forLoop (Suc i) n body t = Inr s'"
      using "1.IH" [OF True step] "1.prems" by simp
    then show ?thesis
      using True step by (simp add: forLoop.simps [of i])
  next
    case False
    then show ?thesis by simp
  qed
qed

lemma drawRows_succeeds:
  assumes "\<And>line y x img. x < length line div 2 \<Longrightarrow> \<exists>img'. tileDraw line y x img = Inr img'"
  shows "\<exists>img'. drawRows tileDraw rows img = Inr img'"
  unfolding drawRows_def
proof (rule forLoop_succeeds)
  fix y t assume "y < length rows"
  then have "at rows y = Inr (rows ! y)" by simp
  moreover have "\<exists>t'. forLoop 0 (length (rows ! y) div 2) (tileDraw (rows ! y) y) t = Inr t'"
    by (rule forLoop_succeeds) (simp add: assms)
  ultimately show "\<exists>t'. bind_res (at rows y) (\<lambda>line. forLoop 0 (length line div 2) (tileDraw line y) t) = Inr t'"
    by simp
qed

lemma tile_in_line:
  assumes "x < length line div 2"
  shows "at line (x * 2) = Inr (line ! (x * 2))"
    and "at line (x * 2 + 1) = Inr (line ! (x * 2 + 1))"
    and "at line (Suc (x * 2)) = Inr (line ! (x * 2 + 1))"
proof -
  from assms have "x * 2 < length line" "x * 2 + 1 < length line" by auto
  then show "at line (x * 2) = Inr (line ! (x * 2))"
    and "at line (x * 2 + 1) = Inr (line ! (x * 2 + 1))"
    and "at line (Suc (x * 2)) = Inr (line ! (x * 2 + 1))"
    by simp_all
qed

lemma tileDraw_succeeds:
  assumes "x < length line div 2"
  shows "\<exists>img'. mapTileDraw sheet line y x img = Inr img'"
    and "\<exists>img'. section3TileDraw sheet line y x img = Inr img'"
    and "\<exists>img'. section4TileDraw sheet line y x img = Inr img'"
  by (simp_all add: mapTileDraw_def section3TileDraw_def section4TileDraw_def
        tile_in_line [OF assms] Let_def)

lemma bind_res_succeeds:
  assumes "\<exists>v. m = Inr v" and "\<And>v. \<exists>w. f v = Inr w"
  shows "\<exists>w. bind_res m f = Inr w"
  using assms by auto

lemma section_succeeds:
  assumes "\<And>line y x img. x < length line div 2 \<Longrightarrow> \<exists>img'. tileDraw line y x img = Inr img'"
  shows "\<exists>w. (case dp of None \<Rightarrow> Inr img | Some rows \<Rightarrow> drawRows tileDraw rows img) = Inr w"
  by (cases dp) (simp_all add: drawRows_succeeds assms)

lemma renderMap_succeeds:
  "\<exists>img. renderMap mapData dp1 dp2 sheet mapWidth mapHeight = Inr img"
  unfolding renderMap_def Let_def
  by (intro bind_res_succeeds drawRows_succeeds section_succeeds tileDraw_succeeds) auto

section \<open>The atlas raster\<close>

lemma imgAt_NewRGBA: "imgAt (NewRGBA w h) x y = RGBA 0 0 0 0"
  by (simp add: imgAt_def NewRGBA_def)

lemma inBounds_NewRGBA: "inBounds (NewRGBA w h) x y = (0 \<le> x \<and> x < w \<and> 0 \<le> y \<and> y < h)"
  by (simp add: inBounds_def NewRGBA_def)

lemma parseHexChar_range: "parseHexChar c = - 1 \<or> (0 \<le> parseHexChar c \<and> parseHexChar c \<le> 15)"
  by (simp add: parseHexChar_def rune_def)

lemma parseHexChar_invalid:
  assumes "\<not> (48 \<le> c \<and> c \<le> 57)" and "\<not> (97 \<le> c \<and> c \<le> 102)" and "\<not> (65 \<le> c \<and> c \<le> 70)"
  shows "parseHexChar c = - 1"
  using assms by (simp add: parseHexChar_def rune_def)

lemma palette_length: "length pico8Palette = 16"
  by (simp add: pico8Palette_def)

lemma pixelColor_closed: "pixelColor c = Inr (pixel_color c)"
  using parseHexChar_range [of c]
  by (auto simp add: pixelColor_def pixel_color_def Let_def at_def palette_length)

lemma pixel_color_invalid: "parseHexChar c = - 1 \<Longrightarrow> pixel_color c = RGBA 0 0 0 255"
  by (simp add: pixel_color_def pico8Palette_def)

lemma pixelColor_invalid: "parseHexChar c = - 1 \<Longrightarrow> pixelColor c = Inr (RGBA 0 0 0 255)"
  by (simp add: pixelColor_closed pixel_color_invalid)

lemma palette_opaque: "c \<in> set pico8Palette \<Longrightarrow> colA c = 255"
  by (auto simp add: pico8Palette_def)

lemma pixel_color_opaque: "colA (pixel_color c) = 255"
proof -
  have "pixel_color c \<in> set pico8Palette"
    unfolding pixel_color_def by (auto simp add: palette_length intro!: nth_mem)
  then show ?thesis by (rule palette_opaque)
qed

lemma fold_concat_lists: "fold f (concat xss) = fold (fold f) xss"
  by (induction xss) simp_all

lemma stringRange_Nil [simp]: "stringRange x [] = []"
  by (simp add: stringRange.simps)

lemma forRange_total:
  assumes "\<And>a t. body a t = Inr (f a t)"
  shows "forRange body as s = Inr (fold f as s)"
  by (induction as arbitrary: s) (simp_all add: assms)

lemma reconstructImage_closed:
  "reconstructImage gfxData = Inr (fold setPixel (atlas_pixels 0 gfxData) (NewRGBA 128 128))"
proof -
  have px: "(case xc of (x, hexChar) \<Rightarrow> \<lambda>img.
               bind_res (pixelColor hexChar) (\<lambda>c. Inr (imgSet img (int x) (int y) c))) img
            = Inr (setPixel ((fst xc, y), pixel_color (snd xc)) img)" for xc :: "nat \<times> rune" and y img
    by (cases xc) (simp add: pixelColor_closed setPixel_def)
  have row: "(case r of (y, line) \<Rightarrow> \<lambda>img.
               forRange (\<lambda>(x, hexChar) img.
                   bind_res (pixelColor hexChar) (\<lambda>c. Inr (imgSet img (int x) (int y) c)))
                 (stringRange 0 line) img) img
             = Inr (fold setPixel (row_pixels r) img)" for r :: "nat \<times> string" and img
  proof -
    obtain y line where r: "r = (y, line)" by (cases r)
    have "forRange (\<lambda>(x, hexChar) img.
                   bind_res (pixelColor hexChar) (\<lambda>c. Inr (imgSet img (int x) (int y) c)))
                 (stringRange 0 line) img
          = Inr (fold (\<lambda>xc. setPixel ((fst xc, y), pixel_color (snd xc))) (stringRange 0 line) img)"
      by (rule forRange_total) (rule px)
    then show ?thesis
      by (simp add: r row_pixels_def fold_map comp_def)
  qed
  have size: "(16::int) * 8 = 128" by simp
  have "forRange (\<lambda>(y, line) img.
              forRange (\<lambda>(x, hexChar) img.
                   bind_res (pixelColor hexChar) (\<lambda>c. Inr (imgSet img (int x) (int y) c)))
                (stringRange 0 line) img) (enumerate 0 gfxData) (NewRGBA 128 128)
        = Inr (fold (\<lambda>r. fold setPixel (row_pixels r)) (enumerate 0 gfxData) (NewRGBA 128 128))"
    by (rule forRange_total) (rule row)
  then show ?thesis
    unfolding reconstructImage_def Let_def size atlas_pixels_def
    by (simp add: fold_concat_lists fold_map comp_def)
qed

lemma stringRange_offsets:
  "xr \<in> set (stringRange x s) \<Longrightarrow> x \<le> fst xr"
proof (induction x s rule: stringRange.induct)
  case (1 x s)
  show ?case
  proof (cases "s = []")
    case True
    with "1.prems" show ?thesis by simp
  next
    case False
    from "1.prems" False
    consider "xr = (x, fst (decodeRune (map of_char s)))"
      | "xr \<in> set (stringRange (x + snd (decodeRune (map of_char s)))
                     (drop (snd (decodeRune (map of_char s))) s))"
      by (subst (asm) stringRange.simps) auto
    then show ?thesis
    proof cases
      case 1
      then show ?thesis by simp
    next
      case 2
      with "1.IH" [OF False] show ?thesis by simp
    qed
  qed
qed

lemma decodeRune_width: "1 \<le> snd (decodeRune bs)"
  by (cases bs) (auto split: list.splits)

lemma stringRange_distinct: "distinct (map fst (stringRange x s))"
proof (induction x s rule: stringRange.induct)
  case (1 x s)
  show ?case
  proof (cases "s = []")
    case True
    then show ?thesis by simp
  next
    case False
    let ?w = "snd (decodeRune (map of_char s))"
    have unfold: "stringRange x s = (x, fst (decodeRune (map of_char s)))
                    # stringRange (x + ?w) (drop ?w s)"
      using False by (subst stringRange.simps) simp
    have "x \<notin> fst ` set (stringRange (x + ?w) (drop ?w s))"
    proof
      assume "x \<in> fst ` set (stringRange (x + ?w) (drop ?w s))"
      then obtain xr where "xr \<in> set (stringRange (x + ?w) (drop ?w s))" "fst xr = x" by auto
      then have "x + ?w \<le> x" using stringRange_offsets by blast
      with decodeRune_width [of "map of_char s"] show False by simp
    qed
    with "1.IH" [OF False] show ?thesis
      unfolding unfold by simp
  qed
qed

lemma row_pixels_positions:
  "w \<in> set (row_pixels (y, line)) \<Longrightarrow> snd (fst w) = y"
  by (auto simp add: row_pixels_def)

lemma row_pixels_distinct: "distinct (map fst (row_pixels r))"
proof -
  have "map fst (row_pixels r) = map (\<lambda>x. (x, fst r)) (map fst (stringRange 0 (snd r)))"
    by (simp add: row_pixels_def comp_def)
  moreover have "inj (\<lambda>x::nat. (x, fst r))" by (simp add: inj_def)
  ultimately show ?thesis
    using stringRange_distinct [of 0 "snd r"] by (simp add: distinct_map inj_on_def)
qed

lemma atlas_pixels_rows:
  "w \<in> set (atlas_pixels k gfxData) \<Longrightarrow> k \<le> snd (fst w)"
proof (induction gfxData arbitrary: k)
  case Nil
  then show ?case by (simp add: atlas_pixels_def)
next
  case (Cons line rest)
  from Cons.prems consider "w \<in> set (row_pixels (k, line))" | "w \<in> set (atlas_pixels (Suc k) rest)"
    by (auto simp add: atlas_pixels_def)
  then show ?case
  proof cases
    case 1
    then show ?thesis using row_pixels_positions by fastforce
  next
    case 2
    with Cons.IH [of "Suc k"] show ?thesis by simp
  qed
qed

lemma atlas_pixels_distinct: "distinct (map fst (atlas_pixels k gfxData))"
proof (induction gfxData arbitrary: k)
  case Nil
  show ?case by (simp add: atlas_pixels_def)
next
  case (Cons line rest)
  have split: "atlas_pixels k (line # rest) = row_pixels (k, line) @ atlas_pixels (Suc k) rest"
    by (simp add: atlas_pixels_def)
  have "fst w \<noteq> fst v"
    if w: "w \<in> set (row_pixels (k, line))" and v: "v \<in> set (atlas_pixels (Suc k) rest)" for w v
  proof
    assume eq: "fst w = fst v"
    from w have "snd (fst w) = k" by (rule row_pixels_positions)
    moreover from v have "Suc k \<le> snd (fst v)" by (rule atlas_pixels_rows)
    ultimately show False using eq by simp
  qed
  then have "fst ` set (row_pixels (k, line)) \<inter> fst ` set (atlas_pixels (Suc k) rest) = {}"
    by blast
  then show ?case
    unfolding split using row_pixels_distinct [of "(k, line)"] Cons.IH [of "Suc k"] by simp
qed

lemma atlas_pixels_mem:
  assumes "y < length gfxData" and "xr \<in> set (stringRange 0 (gfxData ! y))"
  shows "((fst xr, k + y), pixel_color (snd xr)) \<in> set (atlas_pixels k gfxData)"
proof -
  have "(k + y, gfxData ! y) \<in> set (enumerate k gfxData)"
    using assms(1) by (simp add: in_set_enumerate_eq)
  moreover have "((fst xr, k + y), pixel_color (snd xr)) \<in> set (row_pixels (k + y, gfxData ! y))"
    using assms(2) by (auto simp add: row_pixels_def)
  ultimately show ?thesis
    unfolding atlas_pixels_def by auto
qed

lemma setPixel_bounds [simp]: "inBounds (setPixel w img) px py = inBounds img px py"
  by (simp add: setPixel_def)

lemma fold_setPixel_bounds: "inBounds (fold setPixel ws img) px py = inBounds img px py"
  by (rule fold_keeps [where g = "\<lambda>d. inBounds d px py"]) simp

lemma fold_setPixel_other:
  assumes "(x, y) \<notin> fst ` set ws"
  shows "imgAt (fold setPixel ws img) (int x) (int y) = imgAt img (int x) (int y)"
  using assms
proof (induction ws arbitrary: img)
  case Nil
  show ?case by simp
next
  case (Cons w ws)
  then have "fst w \<noteq> (x, y)" and rest: "(x, y) \<notin> fst ` set ws" by auto
  then have "imgAt (setPixel w img) (int x) (int y) = imgAt img (int x) (int y)"
    by (cases w) (auto simp add: setPixel_def imgAt_imgSet)
  with Cons.IH [OF rest, of "setPixel w img"] show ?case by simp
qed

lemma fold_setPixel_at:
  assumes "distinct (map fst ws)" and "((x, y), c) \<in> set ws"
  shows "imgAt (fold setPixel ws img) (int x) (int y) =
           (if inBounds img (int x) (int y) then c else RGBA 0 0 0 0)"
  using assms
proof (induction ws arbitrary: img)
  case Nil
  then show ?case by simp
next
  case (Cons w ws)
  show ?case
  proof (cases "w = ((x, y), c)")
    case True
    with Cons.prems(1) have "(x, y) \<notin> fst ` set ws" by auto
    then have "imgAt (fold setPixel ws (setPixel w img)) (int x) (int y)
                 = imgAt (setPixel w img) (int x) (int y)"
      by (rule fold_setPixel_other)
    also have "\<dots> = (if inBounds img (int x) (int y) then c else RGBA 0 0 0 0)"
    proof (cases "inBounds img (int x) (int y)")
      case True
      with \<open>w = ((x, y), c)\<close> show ?thesis by (simp add: setPixel_def imgAt_imgSet)
    next
      case False
      then have "imgAt img (int x) (int y) = RGBA 0 0 0 0" by (simp add: imgAt_def)
      with False \<open>w = ((x, y), c)\<close> show ?thesis by (simp add: setPixel_def imgAt_imgSet)
    qed
    finally show ?thesis by simp
  next
    case False
    with Cons.prems have mem: "((x, y), c) \<in> set ws" and d: "distinct (map fst ws)"
      and "fst w \<noteq> (x, y)"
      by (auto simp add: image_iff)
    from Cons.IH [OF d mem, of "setPixel w img"] show ?thesis by simp
  qed
qed

lemma fold_setPixel_opaque:
  assumes "\<forall>w\<in>set ws. colA (snd w) = 255"
    and "\<And>px py. imgAt img px py = RGBA 0 0 0 0 \<or> colA (imgAt img px py) = 255"
  shows "imgAt (fold setPixel ws img) px py = RGBA 0 0 0 0 \<or> colA (imgAt (fold setPixel ws img) px py) = 255"
  using assms
proof (induction ws arbitrary: img)
  case Nil
  then show ?case by simp
next
  case (Cons w ws)
  have "imgAt (setPixel w img) qx qy = RGBA 0 0 0 0 \<or> colA (imgAt (setPixel w img) qx qy) = 255"
    for qx qy
    using Cons.prems(1) Cons.prems(2) [of qx qy] by (auto simp add: setPixel_def imgAt_imgSet)
  with Cons.IH [of "setPixel w img"] Cons.prems(1) show ?case by simp
qed

lemma reconstructImage_size:
  assumes "reconstructImage gfxData = Inr img"
  shows "imgW img = 128" and "imgH img = 128"
    and "inBounds img px py = (0 \<le> px \<and> px < 128 \<and> 0 \<le> py \<and> py < 128)"
proof -
  have img: "img = fold setPixel (atlas_pixels 0 gfxData) (NewRGBA 128 128)"
    using assms by (simp add: reconstructImage_closed)
  have "imgW (fold setPixel ws d) = imgW d" "imgH (fold setPixel ws d) = imgH d" for ws d
    by (rule fold_keeps, simp add: setPixel_def)+
  then show "imgW img = 128" and "imgH img = 128"
    by (simp_all add: img NewRGBA_def)
  then show "inBounds img px py = (0 \<le> px \<and> px < 128 \<and> 0 \<le> py \<and> py < 128)"
    by (simp add: inBounds_def)
qed

lemma reconstructImage_succeeds:
  "\<exists>img. reconstructImage gfxData = Inr img \<and> imgW img = 128 \<and> imgH img = 128"
  using reconstructImage_size [of gfxData] by (simp add: reconstructImage_closed)

lemma reconstructImage_pixel:
  assumes "reconstructImage gfxData = Inr img"
    and "y < length gfxData" and "(x, hexChar) \<in> set (stringRange 0 (gfxData ! y))"
    and "x < 128" and "y < 128"
  shows "imgAt img (int x) (int y) = pixel_color hexChar"
proof -
  have img: "img = fold setPixel (atlas_pixels 0 gfxData) (NewRGBA 128 128)"
    using assms(1) by (simp add: reconstructImage_closed)
  have "((x, y), pixel_color hexChar) \<in> set (atlas_pixels 0 gfxData)"
    using atlas_pixels_mem [OF assms(2,3), of 0] by simp
  then have "imgAt img (int x) (int y) =
           (if inBounds (NewRGBA 128 128) (int x) (int y) then pixel_color hexChar else RGBA 0 0 0 0)"
    unfolding img by (rule fold_setPixel_at [OF atlas_pixels_distinct])
  with assms(4,5) show ?thesis
    by (simp add: inBounds_def NewRGBA_def)
qed

lemma atlas_pixels_opaque: "w \<in> set (atlas_pixels k gfxData) \<Longrightarrow> colA (snd w) = 255"
  by (auto simp add: atlas_pixels_def row_pixels_def pixel_color_opaque)

lemma reconstructImage_opaque:
  assumes "reconstructImage gfxData = Inr img"
  shows "imgAt img px py = RGBA 0 0 0 0 \<or> colA (imgAt img px py) = 255"
proof -
  have img: "img = fold setPixel (atlas_pixels 0 gfxData) (NewRGBA 128 128)"
    using assms by (simp add: reconstructImage_closed)
  show ?thesis
    unfolding img
    by (rule fold_setPixel_opaque) (simp_all add: atlas_pixels_opaque imgAt_def NewRGBA_def)
qed

lemma stringRange_ascii:
  assumes "\<forall>c\<in>set s. (of_char c :: nat) < 128"
  shows "stringRange k s = zip [k..<k + length s] (map rune s)"
  using assms
proof (induction s arbitrary: k)
  case Nil
  show ?case by simp
next
  case (Cons c s)
  then have small: "(of_char c :: nat) < 128" and rest: "\<forall>c\<in>set s. (of_char c :: nat) < 128"
    by simp_all
  have dec: "decodeRune (of_char c # map of_char s) = (rune c, 1)"
    using small by (simp add: rune_def of_nat_of_char)
  have "stringRange k (c # s) = (k, rune c) # stringRange (Suc k) s"
    by (subst stringRange.simps) (simp add: dec del: decodeRune.simps)
  also have "\<dots> = (k, rune c) # zip [Suc k..<Suc k + length s] (map rune s)"
    by (simp only: Cons.IH [OF rest])
  also have "\<dots> = zip (k # [Suc k..<Suc k + length s]) (rune c # map rune s)"
    by simp
  also have "k # [Suc k..<Suc k + length s] = [k..<k + length (c # s)]"
    by (subst (2) upt_rec) simp
  finally show ?case by simp
qed

lemma reconstructImage_ascii_pixel:
  assumes "reconstructImage gfxData = Inr img"
    and "y < length gfxData" and "x < length (gfxData ! y)"
    and "\<forall>c\<in>set (gfxData ! y). (of_char c :: nat) < 128"
    and "x < 128" and "y < 128"
  shows "imgAt img (int x) (int y) = pixel_color (rune (gfxData ! y ! x))"
proof -
  have "(x, rune (gfxData ! y ! x)) \<in> set (zip [0..<0 + length (gfxData ! y)] (map rune (gfxData ! y)))"
    using assms(3) by (auto simp add: in_set_zip intro!: exI [of _ x])
  then have "(x, rune (gfxData ! y ! x)) \<in> set (stringRange 0 (gfxData ! y))"
    by (simp only: stringRange_ascii [OF assms(4)])
  with assms(1,2,5,6) show ?thesis
    by (intro reconstructImage_pixel)
qed

section \<open>The map raster\<close>












section \<open>Blank tiles in the rendered map\<close>


lemma paintOp_bounds [simp]: "inBounds (paintOp w img) px py = inBounds img px py"
  by (cases "snd w") (simp_all add: paintOp_def)

lemma fold_paintOp_bounds [simp]: "inBounds (fold paintOp ws img) px py = inBounds img px py"
  by (rule fold_keeps [where g = "\<lambda>d. inBounds d px py"]) simp








lemma tileOps_Nil [simp]: "tileOps f [] = []"
  by (simp add: tileOps_def)















section \<open>The exported sheet\<close>

lemma decimal_digit: "n < 10 \<Longrightarrow> decimal n = [char_of (48 + n)]"
  by (simp add: decimal.simps)

lemma sectionPath_inj:
  assumes "i < 10" and "j < 10" and "sectionPath i = sectionPath j"
  shows "i = j"
proof -
  from assms have "char_of (48 + i) = (char_of (48 + j) :: char)"
    by (simp add: sectionPath_def decimal_digit)
  then have "(of_char (char_of (48 + i) :: char) :: nat) = of_char (char_of (48 + j) :: char)"
    by simp
  then have "(48 + i) mod 256 = (48 + j) mod 256"
    by (simp only: of_char_of)
  with assms(1,2) show ?thesis by simp
qed

lemma saved_sections:
  assumes "n \<le> 10" and "i < n"
  shows "fold (saveSection sheet) [0..<n] fs (sectionPath i) = Some (sectionImage sheet i)"
  using assms
proof (induction n)
  case 0
  then show ?case by simp
next
  case (Suc n)
  show ?case
  proof (cases "i = n")
    case True
    then show ?thesis by (simp add: saveSection_def saveAsPng_def)
  next
    case False
    with Suc.prems have "i < n" "n < 10" "i < 10" by simp_all
    then have "sectionPath i \<noteq> sectionPath n"
      using False sectionPath_inj by blast
    then show ?thesis
      using Suc.IH \<open>i < n\<close> \<open>n < 10\<close> by (simp add: saveSection_def saveAsPng_def)
  qed
qed

lemma pngPixel_transparent: "pngPixel (RGBA 0 0 0 0) = RGBA 0 0 0 0"
  by (simp add: pngPixel_def)

lemma pngPixel_opaque: "colA c = 255 \<Longrightarrow> pngPixel c = c"
  by (cases c) (simp add: pngPixel_def)

lemma pngPixel_alpha: "colA (pngPixel c) = colA c"
  by (cases c) (simp add: pngPixel_def)

lemma pngDecoded_pixels: "imgAt (pngDecoded img) px py = pngPixel (imgAt img px py)"
  by (simp add: pngDecoded_def imgAt_def inBounds_def pngPixel_transparent)

lemma sectionImage_pixels:
  "imgAt (sectionImage sheet i) px py =
     (if 0 \<le> px \<and> px < 128 \<and> 0 \<le> py \<and> py < 32 then imgAt sheet px (int (i * 32) + py)
      else RGBA 0 0 0 0)"
  by (auto simp add: sectionImage_def Let_def block_fill inBounds_NewRGBA imgAt_NewRGBA)

text \<open>
  A section image of a sheet whose pixels are all opaque or all zero comes back from its
  file unchanged.
\<close>

lemma loaded_section_pixels:
  assumes "\<And>qx qy. imgAt sheet qx qy = RGBA 0 0 0 0 \<or> colA (imgAt sheet qx qy) = 255"
  shows "imgAt (pngDecoded (sectionImage sheet i)) px py =
     (if 0 \<le> px \<and> px < 128 \<and> 0 \<le> py \<and> py < 32 then imgAt sheet px (int (i * 32) + py)
      else RGBA 0 0 0 0)"
proof -
  have "pngPixel (imgAt sheet qx qy) = imgAt sheet qx qy" for qx qy
    using assms [of qx qy] by (auto simp add: pngPixel_transparent pngPixel_opaque)
  then show ?thesis
    by (simp add: pngDecoded_pixels sectionImage_pixels pngPixel_transparent)
qed

lemma copySection_pixels:
  "imgAt (copySection s i c) px py =
     (if 0 \<le> px \<and> px < 128 \<and> 32 * int i \<le> py \<and> py < 32 * int i + 32 \<and> inBounds c px py
      then imgAt s px (py - 32 * int i) else imgAt c px py)"
  by (auto simp add: copySection_def Let_def block_fill mult.commute)

lemma copySection_bounds: "inBounds (copySection s i c) px py = inBounds c px py"
  by (simp add: copySection_def Let_def)

lemma copied_sections:
  assumes "k \<le> 4"
    and opaque: "\<And>qx qy. imgAt sheet qx qy = RGBA 0 0 0 0 \<or> colA (imgAt sheet qx qy) = 255"
  shows "imgAt (fold (\<lambda>i c. copySection (pngDecoded (sectionImage sheet i)) i c) [0..<k]
                  (NewRGBA 128 128)) px py =
           (if 0 \<le> px \<and> px < 128 \<and> 0 \<le> py \<and> py < 32 * int k then imgAt sheet px py
            else RGBA 0 0 0 0)"
proof -
  have b: "inBounds (fold (\<lambda>i c. copySection (pngDecoded (sectionImage sheet i)) i c) [0..<k]
                       (NewRGBA 128 128)) px py
           = (0 \<le> px \<and> px < 128 \<and> 0 \<le> py \<and> py < 128)" for k
  proof -
    have "inBounds (fold (\<lambda>i c. copySection (pngDecoded (sectionImage sheet i)) i c) [0..<k]
                      (NewRGBA 128 128)) px py
            = inBounds (NewRGBA 128 128) px py"
      by (rule fold_keeps [where g = "\<lambda>d. inBounds d px py"]) (rule copySection_bounds)
    then show ?thesis by (simp add: inBounds_NewRGBA)
  qed
  show ?thesis
    using assms(1)
  proof (induction k)
    case 0
    show ?case by (auto simp add: imgAt_NewRGBA)
  next
    case (Suc k)
    then have IH: "imgAt (fold (\<lambda>i c. copySection (pngDecoded (sectionImage sheet i)) i c) [0..<k]
                            (NewRGBA 128 128)) px py =
           (if 0 \<le> px \<and> px < 128 \<and> 0 \<le> py \<and> py < 32 * int k then imgAt sheet px py
            else RGBA 0 0 0 0)" and k: "k < 4"
      by simp_all
    let ?prev = "fold (\<lambda>i c. copySection (pngDecoded (sectionImage sheet i)) i c) [0..<k]
                   (NewRGBA 128 128)"
    have unfold: "fold (\<lambda>i c. copySection (pngDecoded (sectionImage sheet i)) i c) [0..<Suc k]
                    (NewRGBA 128 128)
                    = copySection (pngDecoded (sectionImage sheet k)) k ?prev"
      by simp
    show ?case
    proof (cases "0 \<le> px \<and> px < 128 \<and> 32 * int k \<le> py \<and> py < 32 * int k + 32")
      case True
      then have "imgAt (copySection (pngDecoded (sectionImage sheet k)) k ?prev) px py
                   = imgAt sheet px py"
        using k by (simp add: copySection_pixels b loaded_section_pixels [OF opaque])
      with True show ?thesis
        unfolding unfold by auto
    next
      case False
      then have "imgAt (copySection (pngDecoded (sectionImage sheet k)) k ?prev) px py
                   = imgAt ?prev px py"
        by (auto simp add: copySection_pixels)
      with False show ?thesis
        unfolding unfold IH by auto
    qed
  qed
qed

lemma cleared_sections:
  assumes "\<And>px py. 32 * int n \<le> py \<Longrightarrow> imgAt c px py = RGBA 0 0 0 0"
    and "\<forall>i\<in>set js. n \<le> i"
  shows "imgAt (fold clearSection js c) px py = imgAt c px py"
  using assms
proof (induction js arbitrary: c)
  case Nil
  show ?case by simp
next
  case (Cons j js)
  have step: "imgAt (clearSection j c) qx qy = imgAt c qx qy" for qx qy
  proof (cases "32 * int j \<le> qy")
    case True
    with Cons.prems(2) have "32 * int n \<le> qy" by simp
    then show ?thesis
      using Cons.prems(1) by (simp add: clearSection_def Let_def block_fill)
  next
    case False
    then show ?thesis
      by (simp add: clearSection_def Let_def block_fill)
  qed
  have "imgAt (fold clearSection js (clearSection j c)) px py = imgAt (clearSection j c) px py"
    using Cons.prems by (intro Cons.IH) (simp_all add: step)
  then show ?case by (simp add: step)
qed

lemma combined_size:
  "imgW (fold clearSection js (fold (\<lambda>i c. copySection (f i) i c) is (NewRGBA 128 128))) = 128"
  "imgH (fold clearSection js (fold (\<lambda>i c. copySection (f i) i c) is (NewRGBA 128 128))) = 128"
proof -
  have c1: "imgW (fold clearSection js d) = imgW d" "imgH (fold clearSection js d) = imgH d" for d
    by (rule fold_keeps, simp add: clearSection_def Let_def)+
  have c2: "imgW (fold (\<lambda>i c. copySection (f i) i c) is d) = imgW d"
           "imgH (fold (\<lambda>i c. copySection (f i) i c) is d) = imgH d" for d
    by (rule fold_keeps, simp add: copySection_def Let_def)+
  show "imgW (fold clearSection js (fold (\<lambda>i c. copySection (f i) i c) is (NewRGBA 128 128))) = 128"
    "imgH (fold clearSection js (fold (\<lambda>i c. copySection (f i) i c) is (NewRGBA 128 128))) = 128"
    by (simp_all add: c1 c2 NewRGBA_def)
qed

lemma combine_closed:
  assumes "n \<le> 4"
    and "\<And>i. i < n \<Longrightarrow> fs (sectionPath i) = Some (secs i)"
  shows "combineSectionsIntoSpriteSheet n fs =
           Inr (fs(''spritesheet.png'' \<mapsto>
                  fold clearSection [n..<4]
                    (fold (\<lambda>i c. copySection (pngDecoded (secs i)) i c) [0..<n] (NewRGBA 128 128))))"
proof -
  have "forLoop 0 n (\<lambda>i combined. bind_res (loadImage (sectionPath i) fs)
                       (\<lambda>sectionImg. Inr (copySection sectionImg i combined))) (NewRGBA 128 128)
          = Inr (fold (\<lambda>i c. copySection (pngDecoded (secs i)) i c) [0..<n] (NewRGBA 128 128))"
    by (rule forLoop_total) (simp add: loadImage_def assms(2))
  then show ?thesis
    by (simp add: combineSectionsIntoSpriteSheet_def Let_def saveAsPng_def)
qed

lemma sectionCount_le: "sectionCount useSection3 useSection4 \<le> 4"
  by (simp add: sectionCount_def)

text \<open>
  Claim C8. For every option setting and every graphics section, the exported composite
  sheet of the atlas raster is a 128\<times>128 image made of the first \<open>numSections\<close> 128\<times>32 bands
  of the atlas, top to bottom, where \<open>numSections\<close> is 2 when both bands are active, 3 when
  exactly one is and 4 when neither is; every pixel below them is fully transparent.
\<close>

theorem composite_sheet_geometry:
  assumes "reconstructImage gfxData = Inr spriteSheet"
  shows "\<exists>fs' img.
     exportSheet spriteSheet useSection3 useSection4 fs = Inr fs' \<and>
     fs' ''spritesheet.png'' = Some img \<and>
     imgW img = 128 \<and> imgH img = 128 \<and>
     sectionCount useSection3 useSection4 =
       (if useSection3 \<and> useSection4 then 2 else if useSection3 \<or> useSection4 then 3 else 4) \<and>
     (\<forall>px py. imgAt img px py =
        (if 0 \<le> px \<and> px < 128 \<and> 0 \<le> py \<and> py < 32 * int (sectionCount useSection3 useSection4)
         then imgAt spriteSheet px py else RGBA 0 0 0 0)) \<and>
     (\<forall>px py. 32 * int (sectionCount useSection3 useSection4) \<le> py \<longrightarrow>
        colA (imgAt img px py) = 0)"
proof -
  let ?n = "sectionCount useSection3 useSection4"
  let ?fs1 = "saveSprites spriteSheet useSection3 useSection4 fs"
  let ?copied = "fold (\<lambda>i c. copySection (pngDecoded (sectionImage spriteSheet i)) i c) [0..<?n]
                   (NewRGBA 128 128)"
  let ?img = "fold clearSection [?n..<4] ?copied"
  have opaque: "imgAt spriteSheet qx qy = RGBA 0 0 0 0 \<or> colA (imgAt spriteSheet qx qy) = 255"
    for qx qy
    using assms by (rule reconstructImage_opaque)
  have n4: "?n \<le> 4" by (rule sectionCount_le)
  have saved: "?fs1 (sectionPath i) = Some (sectionImage spriteSheet i)" if "i < ?n" for i
    unfolding saveSprites_def Let_def using n4 that by (intro saved_sections) simp_all
  have run: "exportSheet spriteSheet useSection3 useSection4 fs
               = Inr (?fs1(''spritesheet.png'' \<mapsto> ?img))"
    unfolding exportSheet_def Let_def
    by (rule combine_closed [where secs = "sectionImage spriteSheet"]) (simp_all add: n4 saved)
  have copied: "imgAt ?copied px py =
           (if 0 \<le> px \<and> px < 128 \<and> 0 \<le> py \<and> py < 32 * int ?n then imgAt spriteSheet px py
            else RGBA 0 0 0 0)" for px py
    by (rule copied_sections [OF n4 opaque])
  have pixels: "imgAt ?img px py =
           (if 0 \<le> px \<and> px < 128 \<and> 0 \<le> py \<and> py < 32 * int ?n then imgAt spriteSheet px py
            else RGBA 0 0 0 0)" for px py
  proof -
    have "imgAt ?img px py = imgAt ?copied px py"
      by (rule cleared_sections [where n = ?n]) (simp_all add: copied)
    then show ?thesis by (simp only: copied)
  qed
  have alpha: "\<forall>px py. 32 * int ?n \<le> py \<longrightarrow> colA (imgAt ?img px py) = 0"
    by (simp add: pixels)
  have count: "?n = (if useSection3 \<and> useSection4 then 2 else if useSection3 \<or> useSection4 then 3 else 4)"
    by (simp add: sectionCount_def)
  show ?thesis
    using run combined_size [of "[?n..<4]" "\<lambda>i. pngDecoded (sectionImage spriteSheet i)" "[0..<?n]"]
      count pixels alpha
    by (intro exI [of _ "?fs1(''spritesheet.png'' \<mapsto> ?img)"] exI [of _ ?img]) simp
qed

text \<open>
  An instance of the previous theorem at a concrete input: the atlas of a graphics section
  with the single line \<^verbatim>\<open>7z\<close>, only section 3 active and an empty file system. The exported
  sheet shows the atlas pixels (0,0) and (1,0), white and black, and its fourth band slot is
  transparent.
\<close>

theorem composite_sheet_geometry_witness:
  "\<exists>spriteSheet fs' img.
     reconstructImage [''7z''] = Inr spriteSheet \<and>
     exportSheet spriteSheet True False Map.empty = Inr fs' \<and>
     fs' ''spritesheet.png'' = Some img \<and>
     imgW img = 128 \<and> imgH img = 128 \<and>
     sectionCount True False = 3 \<and>
     imgAt img 0 0 = RGBA 255 241 232 255 \<and>
     imgAt img 1 0 = RGBA 0 0 0 255 \<and>
     colA (imgAt img 5 100) = 0"
proof -
  obtain spriteSheet where sheet: "reconstructImage [''7z''] = Inr spriteSheet"
    using reconstructImage_succeeds by blast
  have ascii: "\<forall>c\<in>set ([''7z''] ! 0). (of_char c :: nat) < 128" by simp
  have p0: "imgAt spriteSheet 0 0 = RGBA 255 241 232 255"
    using reconstructImage_ascii_pixel [OF sheet _ _ ascii, of 0]
    by (simp add: pixel_color_def parseHexChar_def rune_def pico8Palette_def)
  have p1: "imgAt spriteSheet 1 0 = RGBA 0 0 0 255"
    using reconstructImage_ascii_pixel [OF sheet _ _ ascii, of 1]
    by (simp add: pixel_color_def parseHexChar_def rune_def pico8Palette_def)
  from composite_sheet_geometry [OF sheet, of True False Map.empty]
  obtain fs' img where
    "exportSheet spriteSheet True False Map.empty = Inr fs'"
    "fs' ''spritesheet.png'' = Some img" "imgW img = 128" "imgH img = 128"
    "sectionCount True False = 3"
    "\<forall>px py. imgAt img px py =
        (if 0 \<le> px \<and> px < 128 \<and> 0 \<le> py \<and> py < 32 * int (sectionCount True False)
         then imgAt spriteSheet px py else RGBA 0 0 0 0)"
    by auto
  with sheet p0 p1 show ?thesis
    by (intro exI [of _ spriteSheet] exI [of _ fs'] exI [of _ img]) simp
qed

section \<open>Decoding absorbs malformed input\<close>

lemma generateSpriteSheetJSON_succeeds:
  assumes "length flagData = 256"
  shows "\<exists>sheet. generateSpriteSheetJSON gfxData flagData useSection3 useSection4 = Inr sheet"
  by (simp add: generateSpriteSheetJSON_closed [OF assms])

lemma band_cells_rows:
  assumes "c \<in> set (band_cells startRow b gfxData)"
  shows "b \<le> cellY c"
proof -
  from assms obtain y x where "c = band_cell b (band_rows startRow gfxData ! y) y x"
    by (auto simp add: band_cells_def)
  then show ?thesis by (simp add: band_cell_def)
qed

lemma base_cells_present:
  assumes "c \<in> set (base_cells mapData width)"
  shows "\<exists>x y. y < length mapData \<and> x * 2 + 1 < length (mapData ! y) \<and>
           c = \<lparr>cellX = int x, cellY = int y,
                cellSprite = parseHexChar (rune (mapData ! y ! (x * 2))) * 16
                             + parseHexChar (rune (mapData ! y ! (x * 2 + 1)))\<rparr>"
proof -
  from assms obtain y where "c \<in> set (base_row_cells mapData width y)"
    by (auto simp add: base_cells_def)
  then obtain x where "y < length mapData" "x * 2 + 1 < length (mapData ! y)"
      "c = base_cell (mapData ! y) y x"
    by (auto simp add: base_row_cells_def split: if_splits)
  then show ?thesis
    unfolding base_cell_def by blast
qed

lemma pixel_grid_nth:
  assumes "i < 8" and "j < 8"
  shows "pixel_grid gfxData x y ! i ! j = pixel_at gfxData (x * 8 + j) (y * 8 + i)"
  using assms by (simp add: pixel_grid_def pixel_row_def)

text \<open>
  Claim C5 as stated fails: a map tile holding a character that is not a hex digit does
  not decode to tile coordinate (0,0). The tile pair \<^verbatim>\<open>zz\<close> gives the sprite ID
  \<open>(-1)*16 + (-1) = -17\<close>.
\<close>

theorem invalid_tile_counterexample:
  "map_sum id msCells (generateMapJSON [''zz''] [] False False)
     = Inr [\<lparr>cellX = 0, cellY = 0, cellSprite = - 17\<rparr>]"
  by code_simp

text \<open>
  Claim C5, amended. Decoding a malformed or short line never fails: the atlas raster, the
  map raster, the map model and (for a flag table of 256 entries) the sprite model are
  always produced. A character that is not a hex digit decodes to the sentinel \<open>-1\<close>, and
  in the atlas raster a character that starts at byte offset \<open>x < 128\<close> of row \<open>y < 128\<close>
  colours the pixel \<open>(x, y)\<close> of the result: in palette colour 0 when it is not a hex digit.
  Missing characters are blank: a sprite pixel whose row or column lies beyond the graphics
  data has index 0, and a base-map tile pair that is not wholly inside its line emits no
  cell.
\<close>

theorem malformed_input_absorbed:
  assumes "length flagData = 256"
  shows "(\<forall>c. parseHexChar c = - 1 \<or> (0 \<le> parseHexChar c \<and> parseHexChar c \<le> 15)) \<and>
         (\<forall>c. \<not> (48 \<le> c \<and> c \<le> 57) \<and> \<not> (97 \<le> c \<and> c \<le> 102) \<and> \<not> (65 \<le> c \<and> c \<le> 70) \<longrightarrow>
               parseHexChar c = - 1 \<and> pixelColor c = Inr (RGBA 0 0 0 255)) \<and>
         (\<exists>img. reconstructImage gfxData = Inr img \<and> imgW img = 128 \<and> imgH img = 128 \<and>
                (\<forall>y x hexChar.
                   y < length gfxData \<and> y < 128 \<and> x < 128 \<and>
                   (x, hexChar) \<in> set (stringRange 0 (gfxData ! y)) \<longrightarrow>
                     pixelColor hexChar = Inr (imgAt img (int x) (int y)) \<and>
                     (parseHexChar hexChar = - 1 \<longrightarrow>
                        imgAt img (int x) (int y) = RGBA 0 0 0 255)) \<and>
                (\<forall>y x.
                   y < length gfxData \<and> y < 128 \<and> x < 128 \<and> x < length (gfxData ! y) \<and>
                   (\<forall>c\<in>set (gfxData ! y). (of_char c :: nat) < 128) \<longrightarrow>
                     pixelColor (rune (gfxData ! y ! x)) = Inr (imgAt img (int x) (int y)) \<and>
                     (parseHexChar (rune (gfxData ! y ! x)) = - 1 \<longrightarrow>
                        imgAt img (int x) (int y) = RGBA 0 0 0 255))) \<and>
         (\<exists>img. renderMap mapData dualPurposeSection1 dualPurposeSection2 spriteSheet
                   mapWidth mapHeight = Inr img) \<and>
         (\<exists>ms. generateMapJSON mapData gfxData useSection3 useSection4 = Inr ms \<and>
                (\<forall>c\<in>set (msCells ms). cellY c < 32 \<longrightarrow>
                   (\<exists>x y. y < length mapData \<and> x * 2 + 1 < length (mapData ! y) \<and>
                      c = \<lparr>cellX = int x, cellY = int y,
                           cellSprite = parseHexChar (rune (mapData ! y ! (x * 2))) * 16
                                        + parseHexChar (rune (mapData ! y ! (x * 2 + 1)))\<rparr>))) \<and>
         (\<exists>sheet. generateSpriteSheetJSON gfxData flagData useSection3 useSection4 = Inr sheet \<and>
                (\<forall>s\<in>set (sheetSprites sheet). \<forall>i<8. \<forall>j<8.
                   (let row = nat (sprY s) * 8 + i; col = nat (sprX s) * 8 + j
                    in sprPixels s ! i ! j =
                         (if row < length gfxData \<and> col < length (gfxData ! row)
                          then parseHexChar (rune (gfxData ! row ! col)) else 0))))"
proof -
  have p1: "\<forall>c. parseHexChar c = - 1 \<or> (0 \<le> parseHexChar c \<and> parseHexChar c \<le> 15)"
    using parseHexChar_range by blast
  have p2: "\<forall>c. \<not> (48 \<le> c \<and> c \<le> 57) \<and> \<not> (97 \<le> c \<and> c \<le> 102) \<and> \<not> (65 \<le> c \<and> c \<le> 70) \<longrightarrow>
               parseHexChar c = - 1 \<and> pixelColor c = Inr (RGBA 0 0 0 255)"
    using parseHexChar_invalid pixelColor_invalid by blast
  have p3: "\<exists>img. reconstructImage gfxData = Inr img \<and> imgW img = 128 \<and> imgH img = 128 \<and>
                (\<forall>y x hexChar.
                   y < length gfxData \<and> y < 128 \<and> x < 128 \<and>
                   (x, hexChar) \<in> set (stringRange 0 (gfxData ! y)) \<longrightarrow>
                     pixelColor hexChar = Inr (imgAt img (int x) (int y)) \<and>
                     (parseHexChar hexChar = - 1 \<longrightarrow>
                        imgAt img (int x) (int y) = RGBA 0 0 0 255)) \<and>
                (\<forall>y x.
                   y < length gfxData \<and> y < 128 \<and> x < 128 \<and> x < length (gfxData ! y) \<and>
                   (\<forall>c\<in>set (gfxData ! y). (of_char c :: nat) < 128) \<longrightarrow>
                     pixelColor (rune (gfxData ! y ! x)) = Inr (imgAt img (int x) (int y)) \<and>
                     (parseHexChar (rune (gfxData ! y ! x)) = - 1 \<longrightarrow>
                        imgAt img (int x) (int y) = RGBA 0 0 0 255))"
  proof -
    obtain img where img: "reconstructImage gfxData = Inr img"
      and size: "imgW img = 128" "imgH img = 128"
      using reconstructImage_succeeds by blast
    have runes: "pixelColor hexChar = Inr (imgAt img (int x) (int y)) \<and>
                     (parseHexChar hexChar = - 1 \<longrightarrow>
                        imgAt img (int x) (int y) = RGBA 0 0 0 255)"
      if "y < length gfxData" "y < 128" "x < 128"
        "(x, hexChar) \<in> set (stringRange 0 (gfxData ! y))" for y x hexChar
      using reconstructImage_pixel [OF img that(1,4,3,2)]
      by (simp add: pixelColor_closed pixel_color_invalid)
    have chars: "pixelColor (rune (gfxData ! y ! x)) = Inr (imgAt img (int x) (int y)) \<and>
                     (parseHexChar (rune (gfxData ! y ! x)) = - 1 \<longrightarrow>
                        imgAt img (int x) (int y) = RGBA 0 0 0 255)"
      if "y < length gfxData" "y < 128" "x < 128" "x < length (gfxData ! y)"
        "\<forall>c\<in>set (gfxData ! y). (of_char c :: nat) < 128" for y x
      using reconstructImage_ascii_pixel [OF img that(1,4,5,3,2)]
      by (simp add: pixelColor_closed pixel_color_invalid)
    show ?thesis
      using img size runes chars by blast
  qed
  have p4: "\<exists>img. renderMap mapData dualPurposeSection1 dualPurposeSection2 spriteSheet
                   mapWidth mapHeight = Inr img"
    by (rule renderMap_succeeds)
  have p5: "\<exists>ms. generateMapJSON mapData gfxData useSection3 useSection4 = Inr ms \<and>
                (\<forall>c\<in>set (msCells ms). cellY c < 32 \<longrightarrow>
                   (\<exists>x y. y < length mapData \<and> x * 2 + 1 < length (mapData ! y) \<and>
                      c = \<lparr>cellX = int x, cellY = int y,
                           cellSprite = parseHexChar (rune (mapData ! y ! (x * 2))) * 16
                                        + parseHexChar (rune (mapData ! y ! (x * 2 + 1)))\<rparr>))"
  proof -
    define ms where "ms = \<lparr>msVersion = ''1.0'', msDescription = ''PICO-8 map export'',
          msWidth = 128, msHeight = mapHeightOf useSection3 useSection4, msName = ''main'',
          msCells = base_cells mapData 128
                     @ (if useSection3 then band_cells 64 32 gfxData else [])
                     @ (if useSection4 then band_cells 96 48 gfxData else [])\<rparr>"
    have gen: "generateMapJSON mapData gfxData useSection3 useSection4 = Inr ms"
      unfolding ms_def by (rule generateMapJSON_closed)
    have "\<exists>x y. y < length mapData \<and> x * 2 + 1 < length (mapData ! y) \<and>
                      c = \<lparr>cellX = int x, cellY = int y,
                           cellSprite = parseHexChar (rune (mapData ! y ! (x * 2))) * 16
                                        + parseHexChar (rune (mapData ! y ! (x * 2 + 1)))\<rparr>"
      if "c \<in> set (msCells ms)" and "cellY c < 32" for c
    proof -
      from that(1) consider "c \<in> set (base_cells mapData 128)"
        | "c \<in> set (band_cells 64 32 gfxData)" | "c \<in> set (band_cells 96 48 gfxData)"
        by (auto simp add: ms_def split: if_splits)
      then show ?thesis
      proof cases
        case 1
        then show ?thesis by (rule base_cells_present)
      next
        case 2
        then have "32 \<le> cellY c" by (rule band_cells_rows)
        with that(2) show ?thesis by simp
      next
        case 3
        then have "48 \<le> cellY c" by (rule band_cells_rows)
        with that(2) show ?thesis by simp
      qed
    qed
    with gen show ?thesis by blast
  qed
  have p6: "\<exists>sheet. generateSpriteSheetJSON gfxData flagData useSection3 useSection4 = Inr sheet \<and>
                (\<forall>s\<in>set (sheetSprites sheet). \<forall>i<8. \<forall>j<8.
                   (let row = nat (sprY s) * 8 + i; col = nat (sprX s) * 8 + j
                    in sprPixels s ! i ! j =
                         (if row < length gfxData \<and> col < length (gfxData ! row)
                          then parseHexChar (rune (gfxData ! row ! col)) else 0)))"
  proof -
    define sheet where "sheet = \<lparr>sheetVersion = ''1.0'', sheetDescription = ''PICO-8 spritesheet export'',
                sheetSprites = map (sprite_of gfxData flagData)
                  (filter (\<lambda>n. \<not> sprite_skipped useSection3 useSection4 n) [0..<256]),
                sheetMetadata =
                  \<lparr>metaSpriteWidth = 8, metaSpriteHeight = 8,
                   metaGridWidth = 16, metaGridHeight = 16,
                   metaAvailableSprites = availableSprites useSection3 useSection4,
                   metaPalette = map (\<lambda>col. \<lparr>paletteR = colR col, paletteG = colG col,
                                paletteB = colB col, paletteA = colA col\<rparr>) pico8Palette\<rparr>\<rparr>"
    have gen: "generateSpriteSheetJSON gfxData flagData useSection3 useSection4 = Inr sheet"
      unfolding sheet_def by (rule generateSpriteSheetJSON_closed [OF assms])
    have sprites: "sheetSprites sheet = map (sprite_of gfxData flagData)
                  (filter (\<lambda>n. \<not> sprite_skipped useSection3 useSection4 n) [0..<256])"
      unfolding sheet_def by (simp only: SpriteSheet.simps)
    have "\<forall>s\<in>set (sheetSprites sheet). \<forall>i<8. \<forall>j<8.
                   (let row = nat (sprY s) * 8 + i; col = nat (sprX s) * 8 + j
                    in sprPixels s ! i ! j =
                         (if row < length gfxData \<and> col < length (gfxData ! row)
                          then parseHexChar (rune (gfxData ! row ! col)) else 0))"
    proof (intro ballI allI impI)
      fix s i j assume "s \<in> set (sheetSprites sheet)" and ij: "i < (8::nat)" "j < (8::nat)"
      then obtain n where "s = sprite_of gfxData flagData n"
        unfolding sprites set_map by blast
      then show "let row = nat (sprY s) * 8 + i; col = nat (sprX s) * 8 + j
                    in sprPixels s ! i ! j =
                         (if row < length gfxData \<and> col < length (gfxData ! row)
                          then parseHexChar (rune (gfxData ! row ! col)) else 0)"
        using ij by (simp add: sprite_of_def pixel_grid_nth pixel_at_def Let_def)
    qed
    with gen show ?thesis by blast
  qed
  from p1 p2 p3 p4 p5 p6 show ?thesis by blast
qed

text \<open>
  An instance of the previous theorem at a concrete input: a one-line graphics section
  \<^verbatim>\<open>7z\<close>, a one-line map that holds the character \<^verbatim>\<open>z\<close>, and an all-zero flag table.
  The raster shows palette colour 7 at pixel (0, 0) and palette colour 0 at pixel (1, 0).
\<close>

theorem malformed_input_absorbed_witness:
  "parseHexChar (rune (CHR ''z'')) = - 1 \<and>
   pixelColor (rune (CHR ''z'')) = Inr (RGBA 0 0 0 255) \<and>
   (\<exists>img. reconstructImage [''7z''] = Inr img \<and> imgW img = 128 \<and> imgH img = 128 \<and>
          imgAt img 0 0 = RGBA 255 241 232 255 \<and> imgAt img 1 0 = RGBA 0 0 0 255) \<and>
   (\<exists>img. renderMap [''zz0''] None None (NewRGBA 128 128) 128 32 = Inr img) \<and>
   (\<exists>ms. generateMapJSON [''zz0''] [''7z''] False False = Inr ms) \<and>
   (\<exists>sheet. generateSpriteSheetJSON [''7z''] (replicate 256 0) False False = Inr sheet)"
proof -
  have len: "length (replicate 256 (0::int)) = 256" by simp
  have z: "rune (CHR ''z'') = 122" and seven: "rune (CHR ''7'') = 55"
    by (simp_all add: rune_def)
  note t = malformed_input_absorbed [OF len, of "[''7z'']" "[''zz0'']" None None
      "NewRGBA 128 128" 128 32 False False]
  have a: "parseHexChar (rune (CHR ''z'')) = - 1 \<and>
           pixelColor (rune (CHR ''z'')) = Inr (RGBA 0 0 0 255)"
    using t [THEN conjunct2, THEN conjunct1, THEN spec, of 122] by (simp add: z)
  have b: "\<exists>img. reconstructImage [''7z''] = Inr img \<and> imgW img = 128 \<and> imgH img = 128 \<and>
          imgAt img 0 0 = RGBA 255 241 232 255 \<and> imgAt img 1 0 = RGBA 0 0 0 255"
  proof -
    from t [THEN conjunct2, THEN conjunct2, THEN conjunct1]
    obtain img where img: "reconstructImage [''7z''] = Inr img" "imgW img = 128" "imgH img = 128"
      and runes: "\<And>y x hexChar.
                   y < length [''7z''] \<and> y < 128 \<and> x < 128 \<and>
                   (x, hexChar) \<in> set (stringRange 0 ([''7z''] ! y)) \<longrightarrow>
                     pixelColor hexChar = Inr (imgAt img (int x) (int y)) \<and>
                     (parseHexChar hexChar = - 1 \<longrightarrow>
                        imgAt img (int x) (int y) = RGBA 0 0 0 255)"
      and chars: "\<And>y x.
                   y < length [''7z''] \<and> y < 128 \<and> x < 128 \<and> x < length ([''7z''] ! y) \<and>
                   (\<forall>c\<in>set ([''7z''] ! y). (of_char c :: nat) < 128) \<longrightarrow>
                     pixelColor (rune ([''7z''] ! y ! x)) = Inr (imgAt img (int x) (int y)) \<and>
                     (parseHexChar (rune ([''7z''] ! y ! x)) = - 1 \<longrightarrow>
                        imgAt img (int x) (int y) = RGBA 0 0 0 255)"
      by blast
    have ascii: "\<forall>c\<in>set ''7z''. (of_char c :: nat) < 128"
      by simp
    have range: "stringRange 0 ''7z'' = [(0, 55), (1, 122)]"
      unfolding stringRange_ascii [OF ascii] by (simp add: rune_def upt_rec)
    have white: "pixelColor 55 = Inr (RGBA 255 241 232 255)"
      by (simp add: pixelColor_closed pixel_color_def parseHexChar_def rune_def pico8Palette_def)
    have "imgAt img 0 0 = RGBA 255 241 232 255"
      using chars [of 0 0] by (simp add: seven white)
    moreover have "imgAt img 1 0 = RGBA 0 0 0 255"
      using runes [of 0 1 122] a by (simp add: range z)
    ultimately show ?thesis
      using img by blast
  qed
  show ?thesis
    using a b t [THEN conjunct2, THEN conjunct2, THEN conjunct2, THEN conjunct1]
      t [THEN conjunct2, THEN conjunct2, THEN conjunct2, THEN conjunct2] by blast
qed

section \<open>The flag table has 256 entries\<close>

text \<open>
  The sprite model indexes the flag table by sprite ID, so the theorems about
  \<^verbatim>\<open>generateSpriteSheetJSON\<close> assume a table of 256 entries. That is what
  \<^verbatim>\<open>parseFlagSection\<close> returns for every flag section.
\<close>

lemma flagCols_length:
  assumes "length flagData = 256"
  shows "\<exists>fd. flagCols line lineNum i flagData = Inr fd \<and> length fd = 256"
  using assms
proof (induction line lineNum i flagData rule: flagCols.induct)
  case (1 line lineNum i flagData)
  show ?case
  proof (cases "i + 1 < length line \<and> i div 2 < 128")
    case False
    then have "flagCols line lineNum i flagData = Inr flagData"
      by (subst flagCols.simps) auto
    then show ?thesis
      using "1.prems" by simp
  next
    case True
    show ?thesis
    proof (cases "lineNum * 128 + i div 2 \<ge> 256")
      case True
      then have "flagCols line lineNum i flagData = Inr flagData"
        by (subst flagCols.simps) (simp add: Let_def)
      then show ?thesis
        using "1.prems" by simp
    next
      case False
      let ?fd = "flagData[lineNum * 128 + i div 2 :=
                   parseHexChar (rune (line ! i)) * 16 + parseHexChar (rune (line ! (i + 1)))]"
      have step: "flagStore line i (lineNum * 128 + i div 2) flagData = Inr ?fd"
        using True False "1.prems" by (simp add: flagStore_def Let_def)
      have "\<exists>fd. flagCols line lineNum (i + 2) ?fd = Inr fd \<and> length fd = 256"
        using "1.IH" [OF True refl _ step] False "1.prems" by simp
      moreover have "flagCols line lineNum i flagData = flagCols line lineNum (i + 2) ?fd"
        using True False step by (subst flagCols.simps) (simp add: Let_def)
      ultimately show ?thesis by simp
    qed
  qed
qed

lemma flagRows_length:
  assumes "length flagData = 256"
  shows "\<exists>fd. flagRows lineNum flagLines flagData = Inr fd \<and> length fd = 256"
  using assms
proof (induction flagLines arbitrary: lineNum flagData)
  case Nil
  then show ?case by simp
next
  case (Cons line rest)
  from flagCols_length [OF Cons.prems, of line lineNum 0]
  obtain fd where "flagCols line lineNum 0 flagData = Inr fd" "length fd = 256" by blast
  with Cons.IH [of fd "lineNum + 1"] Cons.prems show ?case by simp
qed

lemma parseFlagSection_length:
  "\<exists>flagData. parseFlagSection flagLines = Inr flagData \<and> length flagData = 256"
  using flagRows_length [of "replicate 256 0" 0 flagLines]
  by (simp add: parseFlagSection_def Let_def)

end
